theory Spec2Isabelle
  imports Complex_Main
begin

section \<open>Floating-point values\<close>

text \<open>
  The program computes with C \<^verbatim>\<open>float\<close>, the binary32 format of IEEE 754. A value is
  a finite number, one of the two infinities, or NaN. An operation of IEEE 754 gives the
  exact result of the operation, rounded to a value of the format. The model has both
  steps. \<open>fadd\<close>, \<open>fsub\<close>, \<open>fmul\<close>, \<open>fdiv\<close> and \<open>fsqrt\<close> give the exact result, with the
  rules of the special values (division by zero, \<open>0 * inf\<close>, \<open>inf - inf\<close>, comparisons
  with NaN). \<open>rounded rnd\<close> rounds a finite result with the function \<open>rnd\<close>, which may
  give an infinity (overflow) or zero (underflow).

  The rounding \<open>rnd\<close> is a parameter of the model of \<^verbatim>\<open>castRayDDA\<close>. With
  \<open>rnd = round32\<close>, the rounding of binary32, it is the program. What is proved for
  every \<open>rnd\<close> holds for \<open>round32\<close>. With \<open>rnd = Finite\<close> nothing is rounded: this is
  exact arithmetic, and it is the arithmetic of the program on every run all of whose
  values are values of binary32.

  The sign of zero is not modelled. It only shows in \<open>a / 0\<close>; the program squares that
  quotient at once, so the model divides by zero as by \<open>+0\<close>.
\<close>

datatype float = Finite real | PInf | NInf | NaN

fun fneg :: "float \<Rightarrow> float" where
  "fneg (Finite a) = Finite (- a)"
| "fneg PInf = NInf"
| "fneg NInf = PInf"
| "fneg NaN = NaN"

fun fadd :: "float \<Rightarrow> float \<Rightarrow> float" where
  "fadd (Finite a) (Finite b) = Finite (a + b)"
| "fadd NaN _ = NaN"
| "fadd _ NaN = NaN"
| "fadd PInf NInf = NaN"
| "fadd NInf PInf = NaN"
| "fadd PInf _ = PInf"
| "fadd NInf _ = NInf"
| "fadd _ PInf = PInf"
| "fadd _ NInf = NInf"

definition fsub :: "float \<Rightarrow> float \<Rightarrow> float" where
  "fsub a b = fadd a (fneg b)"

fun fmul :: "float \<Rightarrow> float \<Rightarrow> float" where
  "fmul (Finite a) (Finite b) = Finite (a * b)"
| "fmul NaN _ = NaN"
| "fmul _ NaN = NaN"
| "fmul (Finite a) PInf = (if a = 0 then NaN else if 0 < a then PInf else NInf)"
| "fmul (Finite a) NInf = (if a = 0 then NaN else if 0 < a then NInf else PInf)"
| "fmul PInf (Finite b) = (if b = 0 then NaN else if 0 < b then PInf else NInf)"
| "fmul NInf (Finite b) = (if b = 0 then NaN else if 0 < b then NInf else PInf)"
| "fmul PInf PInf = PInf"
| "fmul NInf NInf = PInf"
| "fmul PInf NInf = NInf"
| "fmul NInf PInf = NInf"

fun fdiv :: "float \<Rightarrow> float \<Rightarrow> float" where
  "fdiv (Finite a) (Finite b) =
     (if b \<noteq> 0 then Finite (a / b)
      else if a = 0 then NaN else if 0 < a then PInf else NInf)"
| "fdiv NaN _ = NaN"
| "fdiv _ NaN = NaN"
| "fdiv (Finite a) PInf = Finite 0"
| "fdiv (Finite a) NInf = Finite 0"
| "fdiv PInf (Finite b) = (if 0 \<le> b then PInf else NInf)"
| "fdiv NInf (Finite b) = (if 0 \<le> b then NInf else PInf)"
| "fdiv PInf PInf = NaN"
| "fdiv PInf NInf = NaN"
| "fdiv NInf PInf = NaN"
| "fdiv NInf NInf = NaN"

text \<open>\<^verbatim>\<open>sqrtf\<close>: NaN below zero, infinity at infinity.\<close>

fun fsqrt :: "float \<Rightarrow> float" where
  "fsqrt (Finite a) = (if 0 \<le> a then Finite (sqrt a) else NaN)"
| "fsqrt PInf = PInf"
| "fsqrt NInf = NaN"
| "fsqrt NaN = NaN"

text \<open>The comparisons \<^verbatim>\<open><\<close> and \<^verbatim>\<open><=\<close>: false whenever an operand is NaN.\<close>

fun flt :: "float \<Rightarrow> float \<Rightarrow> bool" where
  "flt (Finite a) (Finite b) = (a < b)"
| "flt NaN _ = False"
| "flt _ NaN = False"
| "flt _ NInf = False"
| "flt PInf _ = False"
| "flt NInf _ = True"
| "flt _ PInf = True"

fun fle :: "float \<Rightarrow> float \<Rightarrow> bool" where
  "fle (Finite a) (Finite b) = (a \<le> b)"
| "fle NaN _ = False"
| "fle _ NaN = False"
| "fle NInf _ = True"
| "fle _ PInf = True"
| "fle _ NInf = False"
| "fle PInf _ = False"
text \<open>The rounding of an exact result: the special values stay as they are.\<close>

fun rounded :: "(real \<Rightarrow> float) \<Rightarrow> float \<Rightarrow> float" where
  "rounded rnd (Finite a) = rnd a"
| "rounded rnd PInf = PInf"
| "rounded rnd NInf = NInf"
| "rounded rnd NaN = NaN"

text \<open>
  The rounding of binary32, to the nearest value with ties to the even significand. A
  finite value of binary32 is a multiple of its quantum \<open>2\<^sup>e\<^sup>-\<^sup>2\<^sup>3\<close> by an integer below
  \<open>2\<^sup>2\<^sup>4\<close> in magnitude, where the exponent \<open>e\<close> is that of the number and at least
  \<open>-126\<close>; the largest is \<open>2\<^sup>1\<^sup>2\<^sup>8 - 2\<^sup>1\<^sup>0\<^sup>4\<close>. \<open>rne\<close> rounds a real number to the
  nearest integer, a tie to the even one. A number of magnitude \<open>2\<^sup>1\<^sup>2\<^sup>8 - 2\<^sup>1\<^sup>0\<^sup>3\<close>
  or more, half a quantum beyond the largest value, rounds to an infinity.
\<close>

definition rne :: "real \<Rightarrow> int" where
  "rne y =
     (if y - of_int \<lfloor>y\<rfloor> < 1 / 2 then \<lfloor>y\<rfloor>
      else if 1 / 2 < y - of_int \<lfloor>y\<rfloor> then \<lfloor>y\<rfloor> + 1
      else if even \<lfloor>y\<rfloor> then \<lfloor>y\<rfloor> else \<lfloor>y\<rfloor> + 1)"

definition binary32_exponent :: "real \<Rightarrow> int" where
  "binary32_exponent x = max \<lfloor>log 2 \<bar>x\<bar>\<rfloor> (- 126)"

definition binary32_quantum :: "real \<Rightarrow> real" where
  "binary32_quantum x = 2 powr (of_int (binary32_exponent x) - 23)"

definition round32 :: "real \<Rightarrow> float" where
  "round32 x =
     (if x = 0 then Finite 0
      else if 2 ^ 128 - 2 ^ 103 \<le> \<bar>x\<bar> then (if 0 < x then PInf else NInf)
      else Finite (of_int (rne (x / binary32_quantum x)) * binary32_quantum x))"

text \<open>The operations \<^verbatim>\<open>+\<close>, \<^verbatim>\<open>-\<close>, \<^verbatim>\<open>*\<close>, \<^verbatim>\<open>/\<close> and \<^verbatim>\<open>sqrtf\<close> of the program.\<close>

definition radd :: "(real \<Rightarrow> float) \<Rightarrow> float \<Rightarrow> float \<Rightarrow> float" where
  "radd rnd a b = rounded rnd (fadd a b)"

definition rsub :: "(real \<Rightarrow> float) \<Rightarrow> float \<Rightarrow> float \<Rightarrow> float" where
  "rsub rnd a b = rounded rnd (fsub a b)"

definition rmul :: "(real \<Rightarrow> float) \<Rightarrow> float \<Rightarrow> float \<Rightarrow> float" where
  "rmul rnd a b = rounded rnd (fmul a b)"

definition rdiv :: "(real \<Rightarrow> float) \<Rightarrow> float \<Rightarrow> float \<Rightarrow> float" where
  "rdiv rnd a b = rounded rnd (fdiv a b)"

definition rsqrt :: "(real \<Rightarrow> float) \<Rightarrow> float \<Rightarrow> float" where
  "rsqrt rnd a = rounded rnd (fsqrt a)"

section \<open>Integers and errors\<close>

text \<open>
  Every way the C program can leave defined behaviour: reading \<^verbatim>\<open>map[y][x]\<close> outside
  the allocated rows, converting to \<^verbatim>\<open>int\<close> a float whose truncation is no \<^verbatim>\<open>int\<close> (an
  infinity and a NaN included), and an \<^verbatim>\<open>int\<close> addition that overflows.
\<close>

datatype error = InvalidRead | InvalidConversion | IntOverflow

text \<open>The type \<^verbatim>\<open>int\<close> has 32 bits.\<close>

definition int_range :: "int \<Rightarrow> bool" where
  "int_range i = (- 2147483648 \<le> i \<and> i \<le> 2147483647)"

definition int_add :: "int \<Rightarrow> int \<Rightarrow> error + int" where
  "int_add a b = (if int_range (a + b) then Inr (a + b) else Inl IntOverflow)"

text \<open>The cast \<^verbatim>\<open>(int)f\<close> truncates towards zero.\<close>

definition truncate_real :: "real \<Rightarrow> int" where
  "truncate_real r = (if 0 \<le> r then \<lfloor>r\<rfloor> else \<lceil>r\<rceil>)"

fun int_of_float :: "float \<Rightarrow> error + int" where
  "int_of_float (Finite r) =
     (if int_range (truncate_real r) then Inr (truncate_real r) else Inl InvalidConversion)"
| "int_of_float _ = Inl InvalidConversion"

text \<open>The conversion \<^verbatim>\<open>(float)i\<close> rounds: not every \<^verbatim>\<open>int\<close> is a value of binary32.\<close>

definition float_of_int :: "(real \<Rightarrow> float) \<Rightarrow> int \<Rightarrow> float" where
  "float_of_int rnd i = rnd (of_int i)"

section \<open>The grid and the state of the traversal\<close>

text \<open>raylib's \<^verbatim>\<open>Vector2\<close>: two floats.\<close>

record vector2 =
  vx :: float
  vy :: float

text \<open>
  \<^verbatim>\<open>int** map\<close>: the rows of the grid, \<^verbatim>\<open>map[y][x]\<close>. A read outside the rows the
  caller allocated is an error of the model.
\<close>

type_synonym grid = "int list list"

definition map_at :: "grid \<Rightarrow> int \<Rightarrow> int \<Rightarrow> error + int" where
  "map_at m row col =
     (if 0 \<le> row \<and> nat row < length m \<and> 0 \<le> col \<and> nat col < length (m ! nat row)
      then Inr (m ! nat row ! nat col) else Inl InvalidRead)"

text \<open>
  What \<^verbatim>\<open>castRayDDA\<close> fixes before its loop (the parameters and the constants
  \<^verbatim>\<open>step_dir\<close>, \<^verbatim>\<open>step_x\<close>, \<^verbatim>\<open>step_y\<close>), and the variables its loop changes.
\<close>

record ray_env =
  env_map :: grid
  map_rows :: int
  map_cols :: int
  tile_size :: float
  max_distance :: float
  step_dir :: vector2
  step_x :: int
  step_y :: int

record ray_state =
  cur_map_x :: int
  cur_map_y :: int
  ray_len :: vector2
  has_hit_wall :: bool
  distance :: float

section \<open>castRayDDA\<close>

text \<open>The loop condition \<^verbatim>\<open>!has_hit_wall && distance < max_distance\<close>.\<close>

definition loop_cond :: "ray_env \<Rightarrow> ray_state \<Rightarrow> bool" where
  "loop_cond e s = (\<not> has_hit_wall s \<and> flt (distance s) (max_distance e))"

text \<open>
  The first half of the loop body: one step along the axis whose grid line is nearer.
  The step of the cell index comes first; when it overflows nothing else happens.
\<close>

definition advance :: "(real \<Rightarrow> float) \<Rightarrow> ray_env \<Rightarrow> ray_state \<Rightarrow> error + ray_state" where
  "advance rnd e s =
     (if flt (vx (ray_len s)) (vy (ray_len s))
      then (case int_add (cur_map_x s) (step_x e) of
              Inl err \<Rightarrow> Inl err
            | Inr x \<Rightarrow>
                Inr (s\<lparr>cur_map_x := x,
                       distance := vx (ray_len s),
                       ray_len := (ray_len s)\<lparr>vx := radd rnd (vx (ray_len s))
                                      (rmul rnd (vx (step_dir e)) (tile_size e))\<rparr>\<rparr>))
      else (case int_add (cur_map_y s) (step_y e) of
              Inl err \<Rightarrow> Inl err
            | Inr y \<Rightarrow>
                Inr (s\<lparr>cur_map_y := y,
                       distance := vy (ray_len s),
                       ray_len := (ray_len s)\<lparr>vy := radd rnd (vy (ray_len s))
                                      (rmul rnd (vy (step_dir e)) (tile_size e))\<rparr>\<rparr>)))"

text \<open>The bounds check that guards the read of the map.\<close>

definition in_bounds :: "ray_env \<Rightarrow> ray_state \<Rightarrow> bool" where
  "in_bounds e s =
     (cur_map_x s \<ge> 0 \<and> cur_map_x s < map_cols e \<and>
      cur_map_y s \<ge> 0 \<and> cur_map_y s < map_rows e)"

text \<open>The second half of the loop body: the guarded test of the cell just entered.\<close>

definition check_wall :: "ray_env \<Rightarrow> ray_state \<Rightarrow> error + ray_state" where
  "check_wall e s =
     (if in_bounds e s
      then (case map_at (env_map e) (cur_map_y s) (cur_map_x s) of
              Inl err \<Rightarrow> Inl err
            | Inr v \<Rightarrow> Inr (if v = 1 then s\<lparr>has_hit_wall := True\<rparr> else s))
      else Inr s)"

definition loop_body :: "(real \<Rightarrow> float) \<Rightarrow> ray_env \<Rightarrow> ray_state \<Rightarrow> error + ray_state" where
  "loop_body rnd e s =
     (case advance rnd e s of
        Inl err \<Rightarrow> Inl err
      | Inr s1 \<Rightarrow> check_wall e s1)"

text \<open>
  The \<^verbatim>\<open>while\<close> loop, run for at most \<open>fuel\<close> iterations: \<open>None\<close> when the loop
  condition still holds after \<open>fuel\<close> iterations, otherwise the state the loop ends in
  or the error it stops at.
\<close>

fun dda_loop ::
  "(real \<Rightarrow> float) \<Rightarrow> nat \<Rightarrow> ray_env \<Rightarrow> ray_state \<Rightarrow> (error + ray_state) option" where
  "dda_loop rnd 0 e s = (if loop_cond e s then None else Some (Inr s))"
| "dda_loop rnd (Suc k) e s =
     (if loop_cond e s
      then (case loop_body rnd e s of
              Inl err \<Rightarrow> Some (Inl err)
            | Inr s' \<Rightarrow> dda_loop rnd k e s')
      else Some (Inr s))"

text \<open>
  The constant \<^verbatim>\<open>step_dir\<close>: the length of ray that crosses one cell on each axis,
  relative to the cell's size.
\<close>

definition calc_step_dir :: "(real \<Rightarrow> float) \<Rightarrow> vector2 \<Rightarrow> vector2" where
  "calc_step_dir rnd direction =
     \<lparr>vx = rsqrt rnd (radd rnd (Finite 1)
              (rmul rnd (rdiv rnd (vy direction) (vx direction))
                        (rdiv rnd (vy direction) (vx direction)))),
      vy = rsqrt rnd (radd rnd (Finite 1)
              (rmul rnd (rdiv rnd (vx direction) (vy direction))
                        (rdiv rnd (vx direction) (vy direction))))\<rparr>"

text \<open>
  The initial \<^verbatim>\<open>cur_map_x\<close> and \<^verbatim>\<open>cur_map_y\<close>, as the pair \<open>(x, y)\<close>: for every
  rounding, and in exact arithmetic.
\<close>

definition start_cell_rnd ::
  "(real \<Rightarrow> float) \<Rightarrow> vector2 \<Rightarrow> float \<Rightarrow> error + (int \<times> int)" where
  "start_cell_rnd rnd start_pos tile =
     (case int_of_float (rdiv rnd (vx start_pos) tile) of
        Inl err \<Rightarrow> Inl err
      | Inr cx \<Rightarrow>
          (case int_of_float (rdiv rnd (vy start_pos) tile) of
             Inl err \<Rightarrow> Inl err
           | Inr cy \<Rightarrow> Inr (cx, cy)))"

definition start_cell :: "vector2 \<Rightarrow> float \<Rightarrow> error + (int \<times> int)" where
  "start_cell start_pos tile = start_cell_rnd Finite start_pos tile"

text \<open>
  One of the two \<^verbatim>\<open>if\<close> statements that initialise \<^verbatim>\<open>ray_len\<close>: the component for the
  coordinate \<open>pos\<close> of the origin, the cell index \<open>c\<close>, the step \<open>st\<close> and the component
  \<open>sd\<close> of \<^verbatim>\<open>step_dir\<close>.
\<close>

definition first_ray_len ::
  "(real \<Rightarrow> float) \<Rightarrow> float \<Rightarrow> int \<Rightarrow> int \<Rightarrow> float \<Rightarrow> float \<Rightarrow> error + float" where
  "first_ray_len rnd pos c st tile sd =
     (if st = - 1
      then Inr (rmul rnd (rsub rnd pos (rmul rnd (float_of_int rnd c) tile)) sd)
      else (case int_add c 1 of
              Inl err \<Rightarrow> Inl err
            | Inr c1 \<Rightarrow> Inr (rmul rnd (rsub rnd (rmul rnd (float_of_int rnd c1) tile) pos) sd)))"

text \<open>Everything before the loop: the constants and the initial values of the variables.\<close>

definition dda_init ::
  "(real \<Rightarrow> float) \<Rightarrow> vector2 \<Rightarrow> vector2 \<Rightarrow> grid \<Rightarrow> int \<Rightarrow> int \<Rightarrow> float \<Rightarrow> float
     \<Rightarrow> error + (ray_env \<times> ray_state)" where
  "dda_init rnd start_pos direction m rows cols tile maxd =
     (case start_cell_rnd rnd start_pos tile of
        Inl err \<Rightarrow> Inl err
      | Inr (cx, cy) \<Rightarrow>
      (let sd = calc_step_dir rnd direction;
           sx = (if flt (vx direction) (Finite 0) then - 1 else 1);
           sy = (if flt (vy direction) (Finite 0) then - 1 else 1)
       in case first_ray_len rnd (vx start_pos) cx sx tile (vx sd) of
            Inl err \<Rightarrow> Inl err
          | Inr rx \<Rightarrow>
         (case first_ray_len rnd (vy start_pos) cy sy tile (vy sd) of
            Inl err \<Rightarrow> Inl err
          | Inr ry \<Rightarrow>
              Inr (\<lparr>env_map = m, map_rows = rows, map_cols = cols, tile_size = tile,
                    max_distance = maxd, step_dir = sd, step_x = sx, step_y = sy\<rparr>,
                   \<lparr>cur_map_x = cx, cur_map_y = cy, ray_len = \<lparr>vx = rx, vy = ry\<rparr>,
                    has_hit_wall = False, distance = Finite 0\<rparr>))))"

text \<open>
  The \<^verbatim>\<open>return\<close> statement: its value in the state the loop has ended in, and
  \<^verbatim>\<open>castRayDDA\<close> after a loop that has ended or not.
\<close>

definition return_value :: "ray_env \<Rightarrow> ray_state \<Rightarrow> float" where
  "return_value e s = (if has_hit_wall s then distance s else max_distance e)"

definition loop_result :: "ray_env \<Rightarrow> (error + ray_state) option \<Rightarrow> (error + float) option" where
  "loop_result e r =
     (case r of
        None \<Rightarrow> None
      | Some (Inl err) \<Rightarrow> Some (Inl err)
      | Some (Inr s') \<Rightarrow> Some (Inr (return_value e s')))"

text \<open>
  \<^verbatim>\<open>castRayDDA\<close> with at most \<open>fuel\<close> iterations of its loop: \<open>None\<close> when the loop
  has not ended by then, \<open>Some (Inr d)\<close> when the function returns \<open>d\<close>. First for every
  rounding, then in exact arithmetic.
\<close>

definition castRayDDA_rnd ::
  "(real \<Rightarrow> float) \<Rightarrow> nat \<Rightarrow> vector2 \<Rightarrow> vector2 \<Rightarrow> grid \<Rightarrow> int \<Rightarrow> int \<Rightarrow> float \<Rightarrow> float
     \<Rightarrow> (error + float) option" where
  "castRayDDA_rnd rnd fuel start_pos direction m rows cols tile maxd =
     (case dda_init rnd start_pos direction m rows cols tile maxd of
        Inl err \<Rightarrow> Some (Inl err)
      | Inr (e, s) \<Rightarrow> loop_result e (dda_loop rnd fuel e s))"

definition castRayDDA ::
  "nat \<Rightarrow> vector2 \<Rightarrow> vector2 \<Rightarrow> grid \<Rightarrow> int \<Rightarrow> int \<Rightarrow> float \<Rightarrow> float \<Rightarrow> (error + float) option" where
  "castRayDDA fuel start_pos direction m rows cols tile maxd =
     castRayDDA_rnd Finite fuel start_pos direction m rows cols tile maxd"

section \<open>The traversal with the other tie-break\<close>

text \<open>
  The loop of \<^verbatim>\<open>castRayDDA\<close> compares \<^verbatim>\<open>ray_len.x < ray_len.y\<close>: when both lengths are
  equal it steps along y. The variant below is the same function with the comparison
  \<^verbatim>\<open>ray_len.x <= ray_len.y\<close>, which steps along x when both are equal. It is not code of
  the program: it is what the program is compared with.
\<close>

definition advance_x_first ::
  "(real \<Rightarrow> float) \<Rightarrow> ray_env \<Rightarrow> ray_state \<Rightarrow> error + ray_state" where
  "advance_x_first rnd e s =
     (if fle (vx (ray_len s)) (vy (ray_len s))
      then (case int_add (cur_map_x s) (step_x e) of
              Inl err \<Rightarrow> Inl err
            | Inr x \<Rightarrow>
                Inr (s\<lparr>cur_map_x := x,
                       distance := vx (ray_len s),
                       ray_len := (ray_len s)\<lparr>vx := radd rnd (vx (ray_len s))
                                      (rmul rnd (vx (step_dir e)) (tile_size e))\<rparr>\<rparr>))
      else (case int_add (cur_map_y s) (step_y e) of
              Inl err \<Rightarrow> Inl err
            | Inr y \<Rightarrow>
                Inr (s\<lparr>cur_map_y := y,
                       distance := vy (ray_len s),
                       ray_len := (ray_len s)\<lparr>vy := radd rnd (vy (ray_len s))
                                      (rmul rnd (vy (step_dir e)) (tile_size e))\<rparr>\<rparr>)))"

definition loop_body_x_first ::
  "(real \<Rightarrow> float) \<Rightarrow> ray_env \<Rightarrow> ray_state \<Rightarrow> error + ray_state" where
  "loop_body_x_first rnd e s =
     (case advance_x_first rnd e s of
        Inl err \<Rightarrow> Inl err
      | Inr s1 \<Rightarrow> check_wall e s1)"




text \<open>
  The state after at most \<open>k\<close> iterations of the loop, of the program and of the
  variant: the state the loop has ended in when it ends earlier.
\<close>

fun dda_steps ::
  "(real \<Rightarrow> float) \<Rightarrow> nat \<Rightarrow> ray_env \<Rightarrow> ray_state \<Rightarrow> error + ray_state" where
  "dda_steps rnd 0 e s = Inr s"
| "dda_steps rnd (Suc k) e s =
     (if loop_cond e s
      then (case loop_body rnd e s of
              Inl err \<Rightarrow> Inl err
            | Inr s' \<Rightarrow> dda_steps rnd k e s')
      else Inr s)"

fun dda_steps_x_first ::
  "(real \<Rightarrow> float) \<Rightarrow> nat \<Rightarrow> ray_env \<Rightarrow> ray_state \<Rightarrow> error + ray_state" where
  "dda_steps_x_first rnd 0 e s = Inr s"
| "dda_steps_x_first rnd (Suc k) e s =
     (if loop_cond e s
      then (case loop_body_x_first rnd e s of
              Inl err \<Rightarrow> Inl err
            | Inr s' \<Rightarrow> dda_steps_x_first rnd k e s')
      else Inr s)"

text \<open>
  An exact tie: \<^verbatim>\<open>ray_len.x == ray_len.y\<close> (never true of a NaN). At a tie the program
  enters the neighbour along y and the variant the neighbour along x, both at the same
  distance; an iteration later, both have entered the cell diagonally across, unless
  one of them has hit a wall or an addition to \<^verbatim>\<open>ray_len\<close> has not made the length
  larger.

  \<open>tie_alike e ry rx\<close> compares the states or errors \<open>ry\<close> of the program and \<open>rx\<close> of
  the variant, two iterations after a tie. They are alike when both are the same error;
  when both loops have ended and return the same value; and when both are the same
  state. They are alike after the last iteration the fuel allows (\<open>last_alike\<close>) when
  both are the same error, when both loops have ended and return the same value, and
  when both loops go on.

  \<open>ties_harmless rnd n e s\<close>: at every tie the first \<open>n\<close> iterations of the program from
  \<open>s\<close> meet, both orders are alike two iterations later.
\<close>

definition tie :: "ray_state \<Rightarrow> bool" where
  "tie s = (vx (ray_len s) = vy (ray_len s) \<and> vx (ray_len s) \<noteq> NaN)"

definition ended_alike :: "ray_env \<Rightarrow> ray_state \<Rightarrow> ray_state \<Rightarrow> bool" where
  "ended_alike e sy sx =
     (\<not> loop_cond e sy \<and> \<not> loop_cond e sx \<and> return_value e sy = return_value e sx)"

definition tie_alike :: "ray_env \<Rightarrow> error + ray_state \<Rightarrow> error + ray_state \<Rightarrow> bool" where
  "tie_alike e ry rx =
     (case ry of
        Inl err \<Rightarrow> rx = Inl err
      | Inr sy \<Rightarrow>
          (case rx of
             Inl err \<Rightarrow> False
           | Inr sx \<Rightarrow> ended_alike e sy sx \<or> sx = sy))"




section \<open>Properties of the grid\<close>

text \<open>
  The caller's side of the contract: \<^verbatim>\<open>map\<close> has at least \<^verbatim>\<open>map_rows\<close> rows of at least
  \<^verbatim>\<open>map_cols\<close> cells each.
\<close>

definition well_formed :: "grid \<Rightarrow> int \<Rightarrow> int \<Rightarrow> bool" where
  "well_formed m rows cols =
     (rows \<le> int (length m) \<and> (\<forall>r < nat rows. cols \<le> int (length (m ! r))))"


section \<open>Invariants of the traversal\<close>

text \<open>
  \<^verbatim>\<open>step_x\<close> and \<^verbatim>\<open>step_y\<close> are 1 or \<open>-1\<close>; and the current cell is never behind the
  cell \<open>(cx, cy)\<close>, seen along the steps.
\<close>

definition unit_steps :: "ray_env \<Rightarrow> bool" where
  "unit_steps e = ((step_x e = 1 \<or> step_x e = - 1) \<and> (step_y e = 1 \<or> step_y e = - 1))"

definition not_behind :: "ray_env \<Rightarrow> int \<Rightarrow> int \<Rightarrow> ray_state \<Rightarrow> bool" where
  "not_behind e cx cy s =
     (0 \<le> (cur_map_x s - cx) * step_x e \<and> 0 \<le> (cur_map_y s - cy) * step_y e)"

section \<open>Runs that make progress\<close>










section \<open>A diagonal ray\<close>



section \<open>drawDottedLine\<close>

text \<open>
  Modelled from the spec: the functions of raylib's \<^verbatim>\<open>raymath.h\<close> that
  \<^verbatim>\<open>drawDottedLine\<close> calls are not part of the repository. The spec has them compute the
  difference, the sum, the multiple by a scalar, the Euclidean distance and the unit
  direction, and has the normalisation guarded where the length is zero. They are
  modelled in exact arithmetic: what they round is not known from the repository.
\<close>

definition Vector2Add :: "vector2 \<Rightarrow> vector2 \<Rightarrow> vector2" where
  "Vector2Add v1 v2 = \<lparr>vx = fadd (vx v1) (vx v2), vy = fadd (vy v1) (vy v2)\<rparr>"

definition Vector2Subtract :: "vector2 \<Rightarrow> vector2 \<Rightarrow> vector2" where
  "Vector2Subtract v1 v2 = \<lparr>vx = fsub (vx v1) (vx v2), vy = fsub (vy v1) (vy v2)\<rparr>"

definition Vector2Scale :: "vector2 \<Rightarrow> float \<Rightarrow> vector2" where
  "Vector2Scale v scale = \<lparr>vx = fmul (vx v) scale, vy = fmul (vy v) scale\<rparr>"

definition Vector2Distance :: "vector2 \<Rightarrow> vector2 \<Rightarrow> float" where
  "Vector2Distance v1 v2 =
     fsqrt (fadd (fmul (fsub (vx v1) (vx v2)) (fsub (vx v1) (vx v2)))
                 (fmul (fsub (vy v1) (vy v2)) (fsub (vy v1) (vy v2))))"

definition Vector2Normalize :: "vector2 \<Rightarrow> vector2" where
  "Vector2Normalize v =
     (let len = fsqrt (fadd (fmul (vx v) (vx v)) (fmul (vy v) (vy v)))
      in if flt (Finite 0) len
         then (let ilength = fdiv (Finite 1) len
               in \<lparr>vx = fmul (vx v) ilength, vy = fmul (vy v) ilength\<rparr>)
         else \<lparr>vx = Finite 0, vy = Finite 0\<rparr>)"

text \<open>
  The \<^verbatim>\<open>for\<close> loop of \<^verbatim>\<open>drawDottedLine\<close> from its counter \<open>i\<close> on. The loop overwrites
  \<^verbatim>\<open>start_pos\<close> in every iteration; the result is the list of the calls of
  \<^verbatim>\<open>DrawLineV\<close>, each a pair of end points.
\<close>

function dotted_loop ::
  "float \<Rightarrow> vector2 \<Rightarrow> int \<Rightarrow> int \<Rightarrow> vector2 \<Rightarrow> (vector2 \<times> vector2) list" where
  "dotted_loop len dir steps i start_pos =
     (if i < steps
      then (let start_pos' = Vector2Add start_pos (Vector2Scale dir len);
                end_pos' = Vector2Add start_pos' (Vector2Scale dir len)
            in (if i mod 2 = 0 then [(start_pos', end_pos')] else [])
               @ dotted_loop len dir steps (i + 1) start_pos')
      else [])"
  by pat_completeness auto
termination
  by (relation "measure (\<lambda>(len, dir, steps, i, start_pos). nat (steps - i))") auto

text \<open>
  \<^verbatim>\<open>drawDottedLine\<close> with the dash length \<^verbatim>\<open>len\<close> as a parameter, and the function
  itself, where \<^verbatim>\<open>len\<close> is the constant \<^verbatim>\<open>4.0f\<close>. The colour only passes through to
  \<^verbatim>\<open>DrawLineV\<close> and is left out. The product \<^verbatim>\<open>len * 2.0f\<close> and the quotient by it
  are exact here; in binary32 they are exact for the program's \<^verbatim>\<open>len\<close>, a power of two,
  unless the quotient underflows.
\<close>

definition drawDottedLine_len ::
  "float \<Rightarrow> vector2 \<Rightarrow> vector2 \<Rightarrow> error + (vector2 \<times> vector2) list" where
  "drawDottedLine_len len start_pos end_pos =
     (let dir = Vector2Normalize (Vector2Subtract end_pos start_pos);
          full_distance = Vector2Distance start_pos end_pos
      in case int_of_float (fdiv full_distance (fmul len (Finite 2))) of
           Inl err \<Rightarrow> Inl err
         | Inr steps \<Rightarrow> Inr (dotted_loop len dir steps 0 start_pos))"

definition drawDottedLine :: "vector2 \<Rightarrow> vector2 \<Rightarrow> error + (vector2 \<times> vector2) list" where
  "drawDottedLine start_pos end_pos = drawDottedLine_len (Finite 4) start_pos end_pos"

section \<open>The dashes of the spec\<close>

text \<open>
  The point at \<open>j\<close> dash lengths from \<open>start\<close> along \<open>dir\<close>, and the dashes the claim
  lists for \<open>steps\<close> sub-segments: from \<open>2 * k + 1\<close> to \<open>2 * k + 2\<close> dash lengths, for every
  \<open>k\<close> with \<open>2 * k < steps\<close>.
\<close>

definition dash_point :: "vector2 \<Rightarrow> vector2 \<Rightarrow> real \<Rightarrow> nat \<Rightarrow> vector2" where
  "dash_point start dir L j = Vector2Add start (Vector2Scale dir (Finite (real j * L)))"

definition spec_dashes :: "vector2 \<Rightarrow> vector2 \<Rightarrow> real \<Rightarrow> int \<Rightarrow> (vector2 \<times> vector2) list" where
  "spec_dashes start dir L steps =
     map (\<lambda>k. (dash_point start dir L (2 * k + 1), dash_point start dir L (2 * k + 2)))
       [0..<nat ((steps + 1) div 2)]"

declare dotted_loop.simps [simp del]

section \<open>Evaluating the model\<close>

lemma rounded_Finite [simp]: "rounded Finite a = a"
  by (cases a) simp_all

lemmas dda_defs =
  castRayDDA_def castRayDDA_rnd_def loop_result_def return_value_def dda_init_def first_ray_len_def
  start_cell_def start_cell_rnd_def calc_step_dir_def float_of_int_def
  radd_def rsub_def rmul_def rdiv_def rsqrt_def fsub_def int_add_def int_range_def
  loop_cond_def loop_body_def advance_def check_wall_def in_bounds_def map_at_def

lemma truncate_real_nonneg: "0 \<le> r \<Longrightarrow> truncate_real r = \<lfloor>r\<rfloor>"
  by (simp add: truncate_real_def)

lemma truncate_real_minus_half [simp]: "truncate_real (- (1 / 2)) = 0"
proof -
  have "\<lceil>- (1 / 2)::real\<rceil> = 0"
    by (rule ceiling_unique) simp_all
  then show ?thesis
    by (simp add: truncate_real_def)
qed

lemma truncate_real_numeral [simp]:
  "truncate_real (numeral k) = numeral k" "truncate_real 0 = 0" "truncate_real 1 = 1"
  "truncate_real (1 / 2) = 0"
  by (simp_all add: truncate_real_def)

lemma truncate_real_neg_numeral [simp]: "truncate_real (- numeral k) = - numeral k"
  by (simp add: truncate_real_def)

section \<open>The loop with more fuel\<close>

lemma dda_loop_stop: "\<not> loop_cond e s \<Longrightarrow> dda_loop rnd n e s = Some (Inr s)"
  by (cases n) simp_all

lemma dda_loop_mono: "dda_loop rnd n e s = Some r \<Longrightarrow> dda_loop rnd (n + k) e s = Some r"
proof (induction n arbitrary: s)
  case 0
  then show ?case
    by (simp add: dda_loop_stop split: if_splits)
next
  case (Suc n)
  then show ?case
    by (auto split: if_splits sum.splits)
qed

lemma castRayDDA_rnd_mono:
  assumes "castRayDDA_rnd rnd n start_pos direction m rows cols tile maxd = Some r"
  shows "castRayDDA_rnd rnd (n + k) start_pos direction m rows cols tile maxd = Some r"
proof (cases "dda_init rnd start_pos direction m rows cols tile maxd")
  case (Inl err)
  with assms show ?thesis
    by (simp add: castRayDDA_rnd_def)
next
  case (Inr es)
  obtain e s where es: "es = (e, s)"
    by (cases es)
  from assms Inr es obtain r' where r': "dda_loop rnd n e s = Some r'"
    by (auto simp: castRayDDA_rnd_def loop_result_def split: option.splits)
  from dda_loop_mono [OF r'] have "dda_loop rnd (n + k) e s = Some r'" .
  with assms Inr es r' show ?thesis
    by (simp add: castRayDDA_rnd_def)
qed

lemma castRayDDA_mono:
  assumes "castRayDDA n start_pos direction m rows cols tile maxd = Some r"
  shows "castRayDDA (n + k) start_pos direction m rows cols tile maxd = Some r"
  using assms unfolding castRayDDA_def by (rule castRayDDA_rnd_mono)

section \<open>The distance budget\<close>

text \<open>
  C1. The claim: the value \<^verbatim>\<open>castRayDDA\<close> returns is at most \<^verbatim>\<open>max_distance\<close>, also
  when a wall is hit on the step that crosses the budget. The program tests
  \<^verbatim>\<open>distance < max_distance\<close> before the step and returns the distance after it. With the
  origin \<open>(10, 10)\<close>, the direction \<open>(1, 0)\<close>, cells of size 20, a wall in the cell right
  of the origin's and the budget 5 it returns 10, whatever the fuel from one iteration on.
\<close>

theorem castRayDDA_exceeds_max_distance:
  "castRayDDA (1 + k) \<lparr>vx = Finite 10, vy = Finite 10\<rparr> \<lparr>vx = Finite 1, vy = Finite 0\<rparr>
     [[0, 1]] 1 2 (Finite 20) (Finite 5) = Some (Inr (Finite 10))
   \<and> flt (Finite 5) (Finite 10)"
proof -
  have "castRayDDA 1 \<lparr>vx = Finite 10, vy = Finite 10\<rparr> \<lparr>vx = Finite 1, vy = Finite 0\<rparr>
     [[0, 1]] 1 2 (Finite 20) (Finite 5) = Some (Inr (Finite 10))"
    by (simp add: dda_defs)
  from castRayDDA_mono [OF this] show ?thesis
    by simp
qed

section \<open>The starting cell\<close>

text \<open>
  C2. The claim: the starting cell is \<open>floor (origin / cellSize)\<close> on each axis, also for
  a negative coordinate. The program converts with \<^verbatim>\<open>(int)\<close>, which truncates towards
  zero: the origin \<open>(-10, 10)\<close> with cells of size 20 starts in column 0, and the floor is
  \<open>-1\<close>.
\<close>

theorem start_cell_truncates:
  "start_cell \<lparr>vx = Finite (- 10), vy = Finite 10\<rparr> (Finite 20) = Inr (0, 0)
   \<and> \<lfloor>(- 10) / 20 :: real\<rfloor> = - 1"
proof -
  have "\<lfloor>- (1 / 2) :: real\<rfloor> = - 1"
    by (rule floor_unique) simp_all
  then show ?thesis
    by (simp add: start_cell_def start_cell_rnd_def rdiv_def int_range_def)
qed

section \<open>Axis-aligned rays\<close>

text \<open>
  C5. The claim: an axis-aligned ray with one occupied cell ahead of it in its row
  returns the distance to the near edge of that cell. From the origin \<open>(-10, 10)\<close> in the
  direction \<open>(1, 0)\<close>, with cells of size 20, the cell of row 0 and column 0 is occupied
  and its near edge is at the distance 10. The program starts in column 0, enters column
  1 first and never tests column 0: it returns the budget, 100.
\<close>

theorem castRayDDA_misses_first_column:
  "castRayDDA (5 + k) \<lparr>vx = Finite (- 10), vy = Finite 10\<rparr> \<lparr>vx = Finite 1, vy = Finite 0\<rparr>
     [[1, 0]] 1 2 (Finite 20) (Finite 100) = Some (Inr (Finite 100))"
proof -
  have "castRayDDA 5 \<lparr>vx = Finite (- 10), vy = Finite 10\<rparr> \<lparr>vx = Finite 1, vy = Finite 0\<rparr>
     [[1, 0]] 1 2 (Finite 20) (Finite 100) = Some (Inr (Finite 100))"
    by (simp add: dda_defs eval_nat_numeral)
  from castRayDDA_mono [OF this] show ?thesis .
qed

text \<open>
  The scenario of the spec: a grid of 80 by 80 cells of size 20, the origin \<open>(400, 400)\<close>,
  the direction \<open>(1, 0)\<close>, and one occupied cell in row 20 and column 25. The program
  returns 100.
\<close>

lemma castRayDDA_scenario:
  "castRayDDA (5 + k) \<lparr>vx = Finite 400, vy = Finite 400\<rparr> \<lparr>vx = Finite 1, vy = Finite 0\<rparr>
     ((replicate 80 (replicate 80 0))[20 := (replicate 80 0)[25 := 1]]) 80 80
     (Finite 20) (Finite 1000) = Some (Inr (Finite 100))"
proof -
  have "castRayDDA 5 \<lparr>vx = Finite 400, vy = Finite 400\<rparr> \<lparr>vx = Finite 1, vy = Finite 0\<rparr>
     ((replicate 80 (replicate 80 0))[20 := (replicate 80 0)[25 := 1]]) 80 80
     (Finite 20) (Finite 1000) = Some (Inr (Finite 100))"
    by (simp add: dda_defs eval_nat_numeral)
  from castRayDDA_mono [OF this] show ?thesis .
qed

section \<open>The rounding of binary32\<close>

lemma rne_near:
  assumes "\<bar>y - of_int n\<bar> < 1 / 2"
  shows "rne y = n"
proof (cases "of_int n \<le> y")
  case True
  with assms have "\<lfloor>y\<rfloor> = n"
    by (intro floor_unique) linarith+
  with assms True show ?thesis
    by (simp add: rne_def)
next
  case False
  with assms have f: "\<lfloor>y\<rfloor> = n - 1"
    by (intro floor_unique) (simp, linarith)+
  with assms False show ?thesis
    by (simp add: rne_def) 
qed

lemma rne_int [simp]: "rne (of_int n) = n"
  by (rule rne_near) simp

lemma rne_tie:
  assumes "y = of_int f + 1 / 2"
  shows "rne y = (if even f then f else f + 1)"
proof -
  from assms have "\<lfloor>y\<rfloor> = f"
    by (intro floor_unique) simp_all
  with assms show ?thesis
    by (simp add: rne_def)
qed

lemma binary32_exponent_eq:
  assumes "2 powr of_int e \<le> \<bar>x\<bar>" "\<bar>x\<bar> < 2 powr (of_int e + 1)" "- 126 \<le> e"
  shows "binary32_exponent x = e"
proof -
  have "0 < (2::real) powr of_int e" by simp
  with assms(1) have pos: "0 < \<bar>x\<bar>" by linarith
  have "\<lfloor>log 2 \<bar>x\<bar>\<rfloor> = e"
    using assms(1,2) pos by (subst floor_log_eq_powr_iff) simp_all
  with assms(3) show ?thesis
    by (simp add: binary32_exponent_def)
qed

lemma round32_eval:
  assumes e: "2 powr of_int e \<le> \<bar>x\<bar>" "\<bar>x\<bar> < 2 powr (of_int e + 1)" "- 126 \<le> e"
    and fin: "\<bar>x\<bar> < 2 ^ 128 - 2 ^ 103"
    and q: "q = 2 powr (of_int e - 23)"
    and n: "rne (x / q) = n"
  shows "round32 x = Finite (of_int n * q)"
proof -
  have "0 < (2::real) powr of_int e" by simp
  with e(1) have "x \<noteq> 0" by auto
  with fin n q show ?thesis
    by (simp add: round32_def binary32_quantum_def binary32_exponent_eq [OF e])
qed

lemma round32_exact:
  assumes e: "2 powr of_int e \<le> \<bar>x\<bar>" "\<bar>x\<bar> < 2 powr (of_int e + 1)" "- 126 \<le> e"
    and fin: "\<bar>x\<bar> < 2 ^ 128 - 2 ^ 103"
    and n: "x / 2 powr (of_int e - 23) = of_int n"
  shows "round32 x = Finite x"
proof -
  have "rne (x / 2 powr (of_int e - 23)) = n"
    by (simp add: n)
  from round32_eval [OF e fin refl this] have "round32 x = Finite (of_int n * 2 powr (of_int e - 23))" .
  also have "of_int n * 2 powr (of_int e - 23) = x"
    by (simp add: n [symmetric])
  finally show ?thesis .
qed

lemma round32_int:
  assumes "0 < k" "k \<le> 16777216"
  shows "round32 (of_int k) = Finite (of_int k)"
proof -
  define e where "e = \<lfloor>log 2 (of_int k)\<rfloor>"
  from assms have k: "0 < (of_int k :: real)" "1 \<le> (of_int k :: real)" "(of_int k :: real) \<le> 16777216"
    by simp_all
  have b: "2 powr of_int e \<le> (of_int k :: real)" "(of_int k :: real) < 2 powr (of_int e + 1)"
    using floor_log_eq_powr_iff [of "of_int k" 2 e] k(1) by (simp_all add: e_def)
  have "0 \<le> log 2 (of_int k)"
    using k(2) by simp
  then have e0: "0 \<le> e"
    by (simp add: e_def)
  have "log 2 (of_int k) \<le> log 2 16777216"
    using k by simp
  also have "log 2 16777216 = 24"
  proof -
    have "(16777216 :: real) = 2 powr 24"
      by simp
    then show ?thesis
      by (simp only: log_powr_cancel)
  qed
  finally have e24: "e \<le> 24"
    by (simp add: e_def floor_le_iff)
  have a: "\<bar>of_int k :: real\<bar> = of_int k"
    using k by simp
  have fin: "\<bar>of_int k :: real\<bar> < 2 ^ 128 - 2 ^ 103"
    using k by simp
  have "\<exists>n. of_int k / 2 powr (of_int e - 23) = real_of_int n"
  proof (cases "e \<le> 23")
    case True
    define m where "m = nat (23 - e)"
    have "(2::real) powr (of_int e - 23) = 1 / 2 powr (23 - of_int e)"
      by (simp add: powr_minus_divide [symmetric])
    also have "23 - real_of_int e = real m"
      using True by (simp add: m_def)
    also have "(2::real) powr real m = 2 ^ m"
      by (simp add: powr_realpow)
    finally have "of_int k / 2 powr (of_int e - 23) = real_of_int (k * 2 ^ m)"
      by simp
    then show ?thesis ..
  next
    case False
    with e24 have e: "e = 24" by simp
    from b(1) e have "16777216 \<le> (of_int k :: real)"
      by simp
    with k(3) have "(of_int k :: real) = 16777216"
      by simp
    with e have "of_int k / 2 powr (of_int e - 23) = real_of_int 8388608"
      by simp
    then show ?thesis ..
  qed
  then obtain n where n: "of_int k / 2 powr (of_int e - 23) = real_of_int n" ..
  from e0 have "- 126 \<le> e" by simp
  from round32_exact [OF _ _ this fin n] b a show ?thesis
    by simp
qed


lemma round32_zero [simp]: "round32 0 = Finite 0"
  by (simp add: round32_def)

lemma round32_one [simp]: "round32 1 = Finite 1"
  using round32_int [of 1] by simp

lemma round32_near:
  assumes "2 powr of_int e \<le> \<bar>x\<bar>" "\<bar>x\<bar> < 2 powr (of_int e + 1)" "- 126 \<le> e"
    and "\<bar>x\<bar> < 2 ^ 128 - 2 ^ 103"
    and "\<bar>x / 2 powr (of_int e - 23) - of_int n\<bar> < 1 / 2"
  shows "round32 x = Finite (of_int n * 2 powr (of_int e - 23))"
  using assms(1-4) refl rne_near [OF assms(5)] by (rule round32_eval)

lemma round32_quotient:
  "round32 (11744051 / 16777216 / (13421773 / 134217728)) = Finite 7"
  using round32_near [where e = 2 and n = 14680064
      and x = "11744051 / 16777216 / (13421773 / 134217728)"]
  by (simp add: powr_neg_numeral)

lemma round32_product:
  "round32 (7 * (13421773 / 134217728)) = Finite (11744051 / 16777216)"
  using round32_near [where e = "- 1" and n = 11744051 and x = "7 * (13421773 / 134217728)"]
  by (simp add: powr_neg_numeral)

lemma round32_tenth:
  "round32 (13421773 / 134217728) = Finite (13421773 / 134217728)"
  using round32_near [where e = "- 4" and n = 13421773 and x = "13421773 / 134217728"]
  by (simp add: powr_neg_numeral)

lemma round32_twentieth:
  "round32 (13421773 / 268435456) = Finite (13421773 / 268435456)"
  using round32_near [where e = "- 5" and n = 13421773 and x = "13421773 / 268435456"]
  by (simp add: powr_neg_numeral)

lemma round32_fifth:
  "round32 (13421773 / 67108864) = Finite (13421773 / 67108864)"
  using round32_near [where e = "- 3" and n = 13421773 and x = "13421773 / 67108864"]
  by (simp add: powr_neg_numeral)

lemma round32_half: "round32 (1 / 2) = Finite (1 / 2)"
  using round32_near [where e = "- 1" and n = 8388608 and x = "1 / 2"]
  by (simp add: powr_neg_numeral)

lemma round32_seven: "round32 7 = Finite 7"
  using round32_int [of 7] by simp

lemma round32_quotient_simp: "round32 (93952408 / 13421773) = Finite 7"
  using round32_quotient by simp

lemma round32_product_simp: "round32 (93952411 / 134217728) = Finite (11744051 / 16777216)"
  using round32_product by simp

lemmas round32_values =
  round32_quotient_simp round32_product_simp round32_tenth round32_twentieth round32_fifth
  round32_half round32_seven


lemma round32_numeral:
  "numeral k \<le> (16777216 :: int) \<Longrightarrow> round32 (numeral k) = Finite (numeral k)"
  using round32_int [of "numeral k"] by simp

lemma rne_minus: "rne (- y) = - rne y"
proof -
  define f where "f = \<lfloor>y\<rfloor>"
  have b: "of_int f \<le> y" "y < of_int f + 1"
    by (simp_all add: f_def)
  consider "y - of_int f < 1 / 2" | "1 / 2 < y - of_int f" | "y = of_int f + 1 / 2"
    by linarith
  then show ?thesis
  proof cases
    case 1
    with b have "\<bar>y - of_int f\<bar> < 1 / 2" "\<bar>- y - of_int (- f)\<bar> < 1 / 2"
      by simp_all
    from rne_near [OF this(1)] rne_near [OF this(2)] show ?thesis
      by simp
  next
    case 2
    with b have "\<bar>y - of_int (f + 1)\<bar> < 1 / 2" "\<bar>- y - of_int (- (f + 1))\<bar> < 1 / 2"
      by simp_all
    from rne_near [OF this(1)] rne_near [OF this(2)] show ?thesis
      by simp
  next
    case 3
    then have "- y = of_int (- f - 1) + 1 / 2"
      by simp
    from rne_tie [OF 3] rne_tie [OF this] show ?thesis
      by simp
  qed
qed

lemma round32_minus: "round32 (- x) = fneg (round32 x)"
  by (simp add: round32_def binary32_quantum_def binary32_exponent_def rne_minus)

lemma round32_neg_numeral:
  "numeral k \<le> (16777216 :: int) \<Longrightarrow> round32 (- numeral k) = Finite (- numeral k)"
  using round32_int [of "numeral k"] by (simp add: round32_minus)

lemma round32_minus_one: "round32 (- 1) = Finite (- 1)"
  by (simp add: round32_minus)

lemma round32_minus_half: "round32 (- (1 / 2)) = Finite (- (1 / 2))"
  by (simp add: round32_minus round32_half)

lemmas binary32_defs =
  castRayDDA_rnd_def loop_result_def return_value_def dda_init_def first_ray_len_def
  start_cell_rnd_def calc_step_dir_def float_of_int_def
  radd_def rsub_def rmul_def rdiv_def rsqrt_def fsub_def int_add_def int_range_def
  loop_cond_def loop_body_def advance_def check_wall_def in_bounds_def map_at_def
  round32_numeral round32_neg_numeral round32_minus_one round32_half round32_minus_half



section \<open>Runs in binary32\<close>

text \<open>
  The values of the runs evaluated above in exact arithmetic are values of binary32, so
  that no operation rounds: with the rounding of binary32 the program starts in the same
  cell and returns the same.
\<close>

lemma runs_in_binary32:
  "castRayDDA_rnd round32 1 \<lparr>vx = Finite 10, vy = Finite 10\<rparr> \<lparr>vx = Finite 1, vy = Finite 0\<rparr>
     [[0, 1]] 1 2 (Finite 20) (Finite 5) = Some (Inr (Finite 10))
   \<and> start_cell_rnd round32 \<lparr>vx = Finite (- 10), vy = Finite 10\<rparr> (Finite 20) = Inr (0, 0)
   \<and> castRayDDA_rnd round32 5 \<lparr>vx = Finite (- 10), vy = Finite 10\<rparr> \<lparr>vx = Finite 1, vy = Finite 0\<rparr>
     [[1, 0]] 1 2 (Finite 20) (Finite 100) = Some (Inr (Finite 100))
   \<and> castRayDDA_rnd round32 5 \<lparr>vx = Finite 400, vy = Finite 400\<rparr> \<lparr>vx = Finite 1, vy = Finite 0\<rparr>
     ((replicate 80 (replicate 80 0))[20 := (replicate 80 0)[25 := 1]]) 80 80
     (Finite 20) (Finite 1000) = Some (Inr (Finite 100))"
  by (simp add: binary32_defs eval_nat_numeral)

lemma re_entry_in_binary32:
  "castRayDDA_rnd round32 3 \<lparr>vx = Finite (- 40), vy = Finite 10\<rparr> \<lparr>vx = Finite 1, vy = Finite 0\<rparr>
     [[0, 1]] 1 2 (Finite 20) (Finite 100) = Some (Inr (Finite 60))"
  by (simp add: binary32_defs eval_nat_numeral)

section \<open>What the initialisation establishes\<close>

lemma dda_init_env_map:
  "dda_init rnd start_pos direction m2 rows cols tile maxd =
     map_sum id (\<lambda>(e, s). (e\<lparr>env_map := m2\<rparr>, s))
       (dda_init rnd start_pos direction m1 rows cols tile maxd)"
  by (auto simp: dda_init_def Let_def split: sum.splits)

lemma dda_init_props:
  assumes "dda_init rnd start_pos direction m rows cols tile maxd = Inr (e, s)"
  shows "unit_steps e" "start_cell_rnd rnd start_pos tile = Inr (cur_map_x s, cur_map_y s)"
    "map_rows e = rows" "map_cols e = cols" "env_map e = m" "max_distance e = maxd"
    "has_hit_wall s = False" "distance s = Finite 0" "tile_size e = tile"
    "step_dir e = calc_step_dir rnd direction"
  using assms
  by (auto simp: dda_init_def Let_def unit_steps_def split: sum.splits)

section \<open>The starting cell is never tested\<close>

lemma advance_env_map: "advance rnd (e\<lparr>env_map := m\<rparr>) s = advance rnd e s"
  by (simp add: advance_def split: sum.splits)

lemma loop_cond_env_map: "loop_cond (e\<lparr>env_map := m\<rparr>) s = loop_cond e s"
  by (simp add: loop_cond_def)

lemma advance_leaves_cell:
  assumes "unit_steps e" "not_behind e cx cy s" "advance rnd e s = Inr s1"
  shows "not_behind e cx cy s1"
    and "cur_map_x s1 \<noteq> cx \<or> cur_map_y s1 \<noteq> cy"
  using assms
  by (auto simp: unit_steps_def not_behind_def advance_def int_add_def algebra_simps
      split: if_splits)

lemma check_wall_cell:
  "check_wall e s = Inr s' \<Longrightarrow> cur_map_x s' = cur_map_x s \<and> cur_map_y s' = cur_map_y s"
  by (auto simp: check_wall_def split: if_splits sum.splits)

lemma check_wall_agree:
  assumes "\<forall>row col. 0 \<le> row \<and> row < map_rows e \<and> 0 \<le> col \<and> col < map_cols e \<and> (col, row) \<noteq> (cx, cy)
             \<longrightarrow> map_at (env_map e) row col = map_at m2 row col"
    and "cur_map_x s \<noteq> cx \<or> cur_map_y s \<noteq> cy"
  shows "check_wall (e\<lparr>env_map := m2\<rparr>) s = check_wall e s"
  using assms by (auto simp: check_wall_def in_bounds_def)

lemma dda_loop_agree:
  assumes agree: "\<forall>row col. 0 \<le> row \<and> row < map_rows e \<and> 0 \<le> col \<and> col < map_cols e \<and> (col, row) \<noteq> (cx, cy)
             \<longrightarrow> map_at (env_map e) row col = map_at m2 row col"
    and us: "unit_steps e"
  shows "not_behind e cx cy s \<Longrightarrow> dda_loop rnd n (e\<lparr>env_map := m2\<rparr>) s = dda_loop rnd n e s"
proof (induction n arbitrary: s)
  case 0
  then show ?case by (simp add: loop_cond_env_map)
next
  case (Suc n)
  show ?case
  proof (cases "advance rnd e s")
    case (Inl err)
    then show ?thesis
      by (simp add: loop_cond_env_map loop_body_def advance_env_map)
  next
    case adv: (Inr s1)
    note nb = advance_leaves_cell [OF us Suc.prems adv]
    have cw: "check_wall (e\<lparr>env_map := m2\<rparr>) s1 = check_wall e s1"
      by (rule check_wall_agree [OF agree nb(2)])
    show ?thesis
    proof (cases "check_wall e s1")
      case (Inl err)
      with cw adv show ?thesis
        by (simp add: loop_cond_env_map loop_body_def advance_env_map)
    next
      case (Inr s')
      from check_wall_cell [OF Inr] nb(1) have "not_behind e cx cy s'"
        by (simp add: not_behind_def)
      from Suc.IH [OF this] Inr cw adv show ?thesis
        by (simp add: loop_cond_env_map loop_body_def advance_env_map)
    qed
  qed
qed

text \<open>
  The run in binary32 from the origin \<open>(0.7f, 0.05f)\<close> in the direction \<open>(-1, 0)\<close>, with
  cells of size \<open>0.1f\<close>, the budget \<open>0.1f\<close> and 1 row of 8 cells: \<open>0.7f\<close> is
  \<open>11744051 / 2\<^sup>2\<^sup>4\<close>, \<open>0.1f\<close> is \<open>13421773 / 2\<^sup>2\<^sup>7\<close> and \<open>0.05f\<close> is half of it.
\<close>

lemma rounded_init:
  "dda_init round32 \<lparr>vx = Finite (11744051 / 16777216), vy = Finite (13421773 / 268435456)\<rparr>
     \<lparr>vx = Finite (- 1), vy = Finite 0\<rparr> m 1 8 (Finite (13421773 / 134217728))
     (Finite (13421773 / 134217728)) =
   Inr (\<lparr>env_map = m, map_rows = 1, map_cols = 8, tile_size = Finite (13421773 / 134217728),
         max_distance = Finite (13421773 / 134217728), step_dir = \<lparr>vx = Finite 1, vy = PInf\<rparr>,
         step_x = - 1, step_y = 1\<rparr>,
        \<lparr>cur_map_x = 7, cur_map_y = 0, ray_len = \<lparr>vx = Finite 0, vy = PInf\<rparr>,
         has_hit_wall = False, distance = Finite 0\<rparr>)"
  by (simp add: dda_init_def start_cell_rnd_def calc_step_dir_def first_ray_len_def
      float_of_int_def radd_def rsub_def rmul_def rdiv_def rsqrt_def fsub_def int_add_def
      int_range_def Let_def round32_values)

lemma origin_cell_run:
  "castRayDDA_rnd round32 2 \<lparr>vx = Finite (11744051 / 16777216), vy = Finite (13421773 / 268435456)\<rparr>
     \<lparr>vx = Finite (- 1), vy = Finite 0\<rparr> [[0, 0, 0, 0, 0, 0, 1, 0]] 1 8 (Finite (13421773 / 134217728))
     (Finite (13421773 / 134217728)) = Some (Inr (Finite 0))"
  "castRayDDA_rnd round32 2 \<lparr>vx = Finite (11744051 / 16777216), vy = Finite (13421773 / 268435456)\<rparr>
     \<lparr>vx = Finite (- 1), vy = Finite 0\<rparr> [[0, 0, 0, 0, 0, 0, 0, 0]] 1 8 (Finite (13421773 / 134217728))
     (Finite (13421773 / 134217728)) = Some (Inr (Finite (13421773 / 134217728)))"
  by (simp_all add: castRayDDA_rnd_def rounded_init loop_result_def return_value_def
      eval_nat_numeral loop_cond_def loop_body_def advance_def check_wall_def in_bounds_def
      map_at_def radd_def rmul_def int_add_def int_range_def round32_values)

text \<open>
  C8. The claim: two grids that differ only in the flag of the cell that contains the
  origin give the same result. The origin \<open>(0.7f, 0.05f)\<close> lies in the cell of column 6
  and row 0 of the cells of size \<open>0.1f\<close>: the quotient \<open>0.7f / 0.1f\<close> is below 7. In
  binary32 it rounds to 7, and the program starts in column 7. In the direction
  \<open>(-1, 0)\<close> its first step enters column 6 at the distance 0 and tests it: with a wall
  there it returns 0, and without one it returns the budget.
\<close>

theorem origin_cell_tested:
  "start_cell_rnd round32 \<lparr>vx = Finite (11744051 / 16777216), vy = Finite (13421773 / 268435456)\<rparr>
     (Finite (13421773 / 134217728)) = Inr (7, 0)
   \<and> \<lfloor>11744051 / 16777216 / (13421773 / 134217728) :: real\<rfloor> = 6
   \<and> \<lfloor>13421773 / 268435456 / (13421773 / 134217728) :: real\<rfloor> = 0
   \<and> (\<forall>k. castRayDDA_rnd round32 (2 + k)
          \<lparr>vx = Finite (11744051 / 16777216), vy = Finite (13421773 / 268435456)\<rparr>
          \<lparr>vx = Finite (- 1), vy = Finite 0\<rparr> [[0, 0, 0, 0, 0, 0, 1, 0]] 1 8
          (Finite (13421773 / 134217728)) (Finite (13421773 / 134217728))
        = Some (Inr (Finite 0)))
   \<and> (\<forall>k. castRayDDA_rnd round32 (2 + k)
          \<lparr>vx = Finite (11744051 / 16777216), vy = Finite (13421773 / 268435456)\<rparr>
          \<lparr>vx = Finite (- 1), vy = Finite 0\<rparr> [[0, 0, 0, 0, 0, 0, 0, 0]] 1 8
          (Finite (13421773 / 134217728)) (Finite (13421773 / 134217728))
        = Some (Inr (Finite (13421773 / 134217728))))"
proof -
  have 1: "start_cell_rnd round32 \<lparr>vx = Finite (11744051 / 16777216), vy = Finite (13421773 / 268435456)\<rparr>
     (Finite (13421773 / 134217728)) = Inr (7, 0)"
    by (simp add: start_cell_rnd_def rdiv_def int_range_def round32_values)
  have 2: "\<lfloor>11744051 / 16777216 / (13421773 / 134217728) :: real\<rfloor> = 6"
    by (rule floor_unique) simp_all
  have 3: "\<lfloor>13421773 / 268435456 / (13421773 / 134217728) :: real\<rfloor> = 0"
    by (rule floor_unique) simp_all
  from 1 2 3 castRayDDA_rnd_mono [OF origin_cell_run(1)] castRayDDA_rnd_mono [OF origin_cell_run(2)]
  show ?thesis
    by blast
qed

text \<open>
  C8, amended. Two grids that agree on every cell within the bounds other than the
  starting cell (the cell \<^verbatim>\<open>castRayDDA\<close> computes from the origin, whatever the rounding
  of the quotient) give the same result, for every origin, direction, cell size, budget,
  fuel and rounding: the loop steps before it tests a cell, and no later cell is the
  starting cell again, as long as no cell index overflows.
\<close>

theorem start_cell_never_tested:
  assumes "\<forall>row col. 0 \<le> row \<and> row < rows \<and> 0 \<le> col \<and> col < cols \<and>
             start_cell_rnd rnd start_pos tile \<noteq> Inr (col, row)
             \<longrightarrow> map_at m1 row col = map_at m2 row col"
  shows "castRayDDA_rnd rnd n start_pos direction m1 rows cols tile maxd =
         castRayDDA_rnd rnd n start_pos direction m2 rows cols tile maxd"
proof (cases "dda_init rnd start_pos direction m1 rows cols tile maxd")
  case (Inl err)
  then show ?thesis
    by (simp add: castRayDDA_rnd_def dda_init_env_map [of _ _ _ m2 _ _ _ _ m1])
next
  case (Inr es)
  obtain e s where es: "es = (e, s)" by (cases es)
  note init = dda_init_props [OF Inr [unfolded es]]
  have agree: "\<forall>row col. 0 \<le> row \<and> row < map_rows e \<and> 0 \<le> col \<and> col < map_cols e \<and>
      (col, row) \<noteq> (cur_map_x s, cur_map_y s) \<longrightarrow> map_at (env_map e) row col = map_at m2 row col"
    using assms init by auto
  have "not_behind e (cur_map_x s) (cur_map_y s) s"
    by (simp add: not_behind_def)
  from dda_loop_agree [OF agree init(1) this, of rnd n]
  show ?thesis
    using Inr es init(6)
    by (simp add: castRayDDA_rnd_def loop_result_def return_value_def dda_init_env_map [of _ _ _ m2 _ _ _ _ m1]
        split: option.splits sum.splits)
qed

theorem start_cell_never_tested_witness:
  "castRayDDA_rnd round32 3 \<lparr>vx = Finite 10, vy = Finite 10\<rparr> \<lparr>vx = Finite 1, vy = Finite 0\<rparr>
     [[1, 1]] 1 2 (Finite 20) (Finite 100) = Some (Inr (Finite 10)) \<and>
   castRayDDA_rnd round32 3 \<lparr>vx = Finite 10, vy = Finite 10\<rparr> \<lparr>vx = Finite 1, vy = Finite 0\<rparr>
     [[0, 1]] 1 2 (Finite 20) (Finite 100) = Some (Inr (Finite 10)) \<and>
   start_cell_rnd round32 \<lparr>vx = Finite 10, vy = Finite 10\<rparr> (Finite 20) = Inr (0, 0) \<and>
   map_at [[1, 1]] 0 0 \<noteq> map_at [[0, 1]] 0 0"
proof -
  have sc: "start_cell_rnd round32 \<lparr>vx = Finite 10, vy = Finite 10\<rparr> (Finite 20) = Inr (0, 0)"
    by (simp add: binary32_defs)
  have h: "\<forall>row col. 0 \<le> row \<and> row < 1 \<and> 0 \<le> col \<and> col < 2 \<and>
             start_cell_rnd round32 \<lparr>vx = Finite 10, vy = Finite 10\<rparr> (Finite 20) \<noteq> Inr (col, row)
             \<longrightarrow> map_at [[1, 1]] row col = map_at [[0, 1]] row col"
  proof (intro allI impI)
    fix row col :: int
    assume a: "0 \<le> row \<and> row < 1 \<and> 0 \<le> col \<and> col < 2 \<and>
             start_cell_rnd round32 \<lparr>vx = Finite 10, vy = Finite 10\<rparr> (Finite 20) \<noteq> Inr (col, row)"
    then have "row = 0" "col = 1" by (auto simp: sc)
    then show "map_at [[1, 1]] row col = map_at [[0, 1]] row col"
      by (simp add: map_at_def)
  qed
  have r: "castRayDDA_rnd round32 3 \<lparr>vx = Finite 10, vy = Finite 10\<rparr> \<lparr>vx = Finite 1, vy = Finite 0\<rparr>
     [[1, 1]] 1 2 (Finite 20) (Finite 100) = Some (Inr (Finite 10))"
    by (simp add: binary32_defs eval_nat_numeral)
  from start_cell_never_tested [OF h, of 3 "\<lparr>vx = Finite 1, vy = Finite 0\<rparr>" "Finite 100"] r sc
  show ?thesis
    by (simp add: map_at_def)
qed

section \<open>Well-formed grids and open grids\<close>

lemma check_wall_well_formed:
  assumes "well_formed (env_map e) (map_rows e) (map_cols e)"
  shows "\<exists>s'. check_wall e s = Inr s'"
proof (cases "in_bounds e s")
  case False
  then show ?thesis by (simp add: check_wall_def)
next
  case True
  then have r: "0 \<le> cur_map_y s" "nat (cur_map_y s) < nat (map_rows e)"
    and c: "0 \<le> cur_map_x s" "cur_map_x s < map_cols e"
    by (auto simp: in_bounds_def)
  from assms r have "nat (cur_map_y s) < length (env_map e)"
    and "map_cols e \<le> int (length (env_map e ! nat (cur_map_y s)))"
    by (auto simp: well_formed_def)
  with c r have "\<exists>v. map_at (env_map e) (cur_map_y s) (cur_map_x s) = Inr v"
    by (auto simp: map_at_def)
  with True show ?thesis
    by (auto simp: check_wall_def)
qed

lemma advance_error: "advance rnd e s = Inl err \<Longrightarrow> err = IntOverflow"
  by (auto simp: advance_def int_add_def split: if_splits)

lemma loop_body_well_formed:
  assumes "well_formed (env_map e) (map_rows e) (map_cols e)"
  shows "loop_body rnd e s \<noteq> Inl InvalidRead"
proof (cases "advance rnd e s")
  case (Inl err)
  from advance_error [OF this] Inl show ?thesis
    by (simp add: loop_body_def)
next
  case (Inr s1)
  with check_wall_well_formed [OF assms, of s1] show ?thesis
    by (auto simp: loop_body_def)
qed

lemma dda_loop_well_formed:
  assumes "well_formed (env_map e) (map_rows e) (map_cols e)"
  shows "dda_loop rnd n e s \<noteq> Some (Inl InvalidRead)"
proof (induction n arbitrary: s)
  case 0
  then show ?case by simp
next
  case (Suc n)
  from loop_body_well_formed [OF assms, of rnd s] Suc show ?case
    by (auto split: sum.splits)
qed




section \<open>Cells outside the bounds\<close>

lemma check_wall_agree_in_bounds:
  assumes "\<forall>row col. 0 \<le> row \<and> row < map_rows e \<and> 0 \<le> col \<and> col < map_cols e
             \<longrightarrow> map_at (env_map e) row col = map_at m2 row col"
  shows "check_wall (e\<lparr>env_map := m2\<rparr>) s = check_wall e s"
  using assms by (auto simp: check_wall_def in_bounds_def)

lemma dda_loop_agree_in_bounds:
  assumes "\<forall>row col. 0 \<le> row \<and> row < map_rows e \<and> 0 \<le> col \<and> col < map_cols e
             \<longrightarrow> map_at (env_map e) row col = map_at m2 row col"
  shows "dda_loop rnd n (e\<lparr>env_map := m2\<rparr>) s = dda_loop rnd n e s"
proof (induction n arbitrary: s)
  case 0
  then show ?case by (simp add: loop_cond_env_map)
next
  case (Suc n)
  have "loop_body rnd (e\<lparr>env_map := m2\<rparr>) s = loop_body rnd e s"
    by (simp add: loop_body_def advance_env_map check_wall_agree_in_bounds [OF assms]
        split: sum.splits)
  with Suc show ?case
    by (simp add: loop_cond_env_map split: sum.splits)
qed

lemma castRayDDA_agree_in_bounds:
  assumes "\<forall>row col. 0 \<le> row \<and> row < rows \<and> 0 \<le> col \<and> col < cols
             \<longrightarrow> map_at m row col = map_at m2 row col"
  shows "castRayDDA_rnd rnd n start_pos direction m2 rows cols tile maxd =
         castRayDDA_rnd rnd n start_pos direction m rows cols tile maxd"
proof (cases "dda_init rnd start_pos direction m rows cols tile maxd")
  case (Inl err)
  then show ?thesis
    by (simp add: castRayDDA_rnd_def dda_init_env_map [of _ _ _ m2 _ _ _ _ m])
next
  case (Inr es)
  obtain e s where es: "es = (e, s)" by (cases es)
  note init = dda_init_props [OF Inr [unfolded es]]
  have agree: "\<forall>row col. 0 \<le> row \<and> row < map_rows e \<and> 0 \<le> col \<and> col < map_cols e
      \<longrightarrow> map_at (env_map e) row col = map_at m2 row col"
    using assms init by auto
  from dda_loop_agree_in_bounds [OF agree, of rnd n s]
  show ?thesis
    using Inr es init(6)
    by (simp add: castRayDDA_rnd_def loop_result_def return_value_def dda_init_env_map [of _ _ _ m2 _ _ _ _ m]
        split: option.splits sum.splits)
qed

lemma skip_out_of_bounds:
  assumes "loop_cond e s" "advance rnd e s = Inr s1" "\<not> in_bounds e s1"
  shows "loop_body rnd e s = Inr s1" "dda_loop rnd (Suc k) e s = dda_loop rnd k e s1"
  using assms by (simp_all add: loop_body_def check_wall_def)

lemma dda_init_state:
  "map_sum id snd (dda_init rnd start_pos direction m2 rows2 cols2 tile maxd) =
   map_sum id snd (dda_init rnd start_pos direction m rows cols tile maxd)"
  by (auto simp: dda_init_def Let_def split: sum.splits)

text \<open>
  C7. On a grid with at least \<^verbatim>\<open>map_rows\<close> rows of at least \<^verbatim>\<open>map_cols\<close> cells, for
  every origin, direction, cell size, budget, fuel and rounding:

  \<^item> \<^verbatim>\<open>castRayDDA\<close> never reads outside the rows allocated;
  \<^item> it reads no cell outside the bounds: a grid with the same cells within the bounds
    gives the same result;
  \<^item> an iteration that steps to a cell outside the bounds reads nothing, and the loop
    goes on from the state after the step with the iterations it has left;
  \<^item> the cell and the lengths the loop starts from do not depend on the grid or its
    bounds: an origin outside the bounds starts like any other;
  \<^item> and a ray that starts outside the bounds can enter them and hit a wall there:
    in binary32, from the origin \<open>(-40, 10)\<close>, in the cell of column \<open>-2\<close>, the ray
    along x passes column \<open>-1\<close> and column 0 and hits the wall in column 1, at the
    distance 60.
\<close>

theorem grid_never_read_out_of_bounds:
  assumes "well_formed m rows cols"
  shows "castRayDDA_rnd rnd n start_pos direction m rows cols tile maxd \<noteq> Some (Inl InvalidRead)
    \<and> (\<forall>m2. (\<forall>row col. 0 \<le> row \<and> row < rows \<and> 0 \<le> col \<and> col < cols
                \<longrightarrow> map_at m row col = map_at m2 row col)
          \<longrightarrow> castRayDDA_rnd rnd n start_pos direction m2 rows cols tile maxd =
              castRayDDA_rnd rnd n start_pos direction m rows cols tile maxd)
    \<and> (\<forall>e s s1 k. loop_cond e s \<and> advance rnd e s = Inr s1 \<and> \<not> in_bounds e s1
          \<longrightarrow> loop_body rnd e s = Inr s1 \<and> dda_loop rnd (Suc k) e s = dda_loop rnd k e s1)
    \<and> (\<forall>m2 rows2 cols2.
          map_sum id snd (dda_init rnd start_pos direction m2 rows2 cols2 tile maxd) =
          map_sum id snd (dda_init rnd start_pos direction m rows cols tile maxd))
    \<and> start_cell_rnd round32 \<lparr>vx = Finite (- 40), vy = Finite 10\<rparr> (Finite 20) = Inr (- 2, 0)
    \<and> castRayDDA_rnd round32 (3 + k) \<lparr>vx = Finite (- 40), vy = Finite 10\<rparr>
        \<lparr>vx = Finite 1, vy = Finite 0\<rparr> [[0, 1]] 1 2 (Finite 20) (Finite 100)
        = Some (Inr (Finite 60))"
proof -
  have 1: "castRayDDA_rnd rnd n start_pos direction m rows cols tile maxd \<noteq> Some (Inl InvalidRead)"
  proof (cases "dda_init rnd start_pos direction m rows cols tile maxd")
    case (Inl err)
    then have "err \<noteq> InvalidRead"
      by (auto simp: dda_init_def start_cell_rnd_def first_ray_len_def int_add_def Let_def
          split: sum.splits if_splits float.splits elim!: int_of_float.elims)
    with Inl show ?thesis
      by (simp add: castRayDDA_rnd_def)
  next
    case (Inr es)
    obtain e s where es: "es = (e, s)" by (cases es)
    note init = dda_init_props [OF Inr [unfolded es]]
    from assms init have "well_formed (env_map e) (map_rows e) (map_cols e)"
      by simp
    from dda_loop_well_formed [OF this, of rnd n s] Inr es show ?thesis
      by (auto simp: castRayDDA_rnd_def loop_result_def split: option.splits sum.splits)
  qed
  have 2: "\<forall>m2. (\<forall>row col. 0 \<le> row \<and> row < rows \<and> 0 \<le> col \<and> col < cols
                \<longrightarrow> map_at m row col = map_at m2 row col)
          \<longrightarrow> castRayDDA_rnd rnd n start_pos direction m2 rows cols tile maxd =
              castRayDDA_rnd rnd n start_pos direction m rows cols tile maxd"
    using castRayDDA_agree_in_bounds by blast
  have 3: "\<forall>e s s1 k. loop_cond e s \<and> advance rnd e s = Inr s1 \<and> \<not> in_bounds e s1
          \<longrightarrow> loop_body rnd e s = Inr s1 \<and> dda_loop rnd (Suc k) e s = dda_loop rnd k e s1"
    using skip_out_of_bounds by blast
  have 4: "\<forall>m2 rows2 cols2.
          map_sum id snd (dda_init rnd start_pos direction m2 rows2 cols2 tile maxd) =
          map_sum id snd (dda_init rnd start_pos direction m rows cols tile maxd)"
    using dda_init_state by blast
  have 5: "start_cell_rnd round32 \<lparr>vx = Finite (- 40), vy = Finite 10\<rparr> (Finite 20) = Inr (- 2, 0)"
    by (simp add: binary32_defs)
  from 1 2 3 4 5 castRayDDA_rnd_mono [OF re_entry_in_binary32, of k] show ?thesis
    by blast
qed

theorem grid_never_read_out_of_bounds_witness:
  "well_formed [[0, 1]] 1 2
   \<and> castRayDDA_rnd round32 3 \<lparr>vx = Finite (- 40), vy = Finite 10\<rparr> \<lparr>vx = Finite 1, vy = Finite 0\<rparr>
       [[0, 1]] 1 2 (Finite 20) (Finite 100) \<noteq> Some (Inl InvalidRead)
   \<and> castRayDDA_rnd round32 3 \<lparr>vx = Finite (- 40), vy = Finite 10\<rparr> \<lparr>vx = Finite 1, vy = Finite 0\<rparr>
       [[0, 1, 1]] 1 2 (Finite 20) (Finite 100) =
     castRayDDA_rnd round32 3 \<lparr>vx = Finite (- 40), vy = Finite 10\<rparr> \<lparr>vx = Finite 1, vy = Finite 0\<rparr>
       [[0, 1]] 1 2 (Finite 20) (Finite 100)
   \<and> castRayDDA_rnd round32 3 \<lparr>vx = Finite (- 40), vy = Finite 10\<rparr> \<lparr>vx = Finite 1, vy = Finite 0\<rparr>
       [[0, 1]] 1 2 (Finite 20) (Finite 100) = Some (Inr (Finite 60))"
proof -
  have wf: "well_formed [[0, 1]] 1 2"
    by (simp add: well_formed_def)
  have agree: "\<forall>row col. 0 \<le> row \<and> row < 1 \<and> 0 \<le> col \<and> col < 2
      \<longrightarrow> map_at [[0, 1]] row col = map_at [[0, 1, 1]] row col"
  proof (intro allI impI)
    fix row col :: int
    assume "0 \<le> row \<and> row < 1 \<and> 0 \<le> col \<and> col < 2"
    then have "row = 0" "col = 0 \<or> col = 1"
      by auto
    then show "map_at [[0, 1]] row col = map_at [[0, 1, 1]] row col"
      by (auto simp: map_at_def)
  qed
  from grid_never_read_out_of_bounds [OF wf, of round32 3 "\<lparr>vx = Finite (- 40), vy = Finite 10\<rparr>"
      "\<lparr>vx = Finite 1, vy = Finite 0\<rparr>" "Finite 20" "Finite 100" 0] agree wf re_entry_in_binary32
  show ?thesis
    by simp
qed

section \<open>Comparisons with the special values\<close>

lemma flt_PInf_left [simp]: "\<not> flt PInf b"
  by (cases b) simp_all

lemma flt_right_special [simp]: "\<not> flt a NaN" "\<not> flt a NInf"
  by (cases a; simp)+

section \<open>The loop ends\<close>


lemma check_wall_fields:
  assumes "check_wall e s = Inr s'"
  shows "ray_len s' = ray_len s" "distance s' = distance s"
    "cur_map_x s' = cur_map_x s" "cur_map_y s' = cur_map_y s"
    "has_hit_wall s \<Longrightarrow> has_hit_wall s'"
  using assms by (auto simp: check_wall_def split: if_splits sum.splits)







section \<open>Open grids\<close>










section \<open>The spec's bound on the iterations\<close>













section \<open>The tie-break\<close>


lemma tie_comparisons: "a \<noteq> NaN \<Longrightarrow> \<not> flt a a \<and> fle a a"
  by (cases a) simp_all









text \<open>
  A tie is harmless when the two cells entered at it are both occupied or both not, and
  the additions to \<^verbatim>\<open>ray_len\<close> have made both lengths larger: the next iteration then
  brings both orders to the same state.
\<close>

lemma flt_not_fle: "flt a b \<Longrightarrow> \<not> fle b a"
  by (cases a; cases b) simp_all

lemma check_wall_cases:
  "check_wall e s = Inr s' \<Longrightarrow> s' = s \<or> s' = s\<lparr>has_hit_wall := True\<rparr>"
  by (auto simp: check_wall_def split: if_splits sum.splits)

lemma tie_second_step:
  assumes t: "tie s" and y: "loop_body rnd e s = Inr sy" and x: "loop_body_x_first rnd e s = Inr sx"
    and h: "has_hit_wall sy = has_hit_wall sx"
    and gy: "flt (vy (ray_len s)) (vy (ray_len sy))"
    and gx: "flt (vx (ray_len s)) (vx (ray_len sx))"
  shows "loop_body_x_first rnd e sx = loop_body rnd e sy" "distance sx = distance sy"
proof -
  from t tie_comparisons [of "vx (ray_len s)"]
  have c: "\<not> flt (vx (ray_len s)) (vy (ray_len s))" "fle (vx (ray_len s)) (vy (ray_len s))"
    and eq: "vx (ray_len s) = vy (ray_len s)"
    by (auto simp: tie_def)
  from y obtain ay where ay: "advance rnd e s = Inr ay" "check_wall e ay = Inr sy"
    by (auto simp: loop_body_def split: sum.splits)
  from x obtain ax where ax: "advance_x_first rnd e s = Inr ax" "check_wall e ax = Inr sx"
    by (auto simp: loop_body_x_first_def split: sum.splits)
  from ay(1) c(1) obtain y' where y': "int_add (cur_map_y s) (step_y e) = Inr y'"
    and ay_eq: "ay = s\<lparr>cur_map_y := y', distance := vy (ray_len s),
       ray_len := (ray_len s)\<lparr>vy := radd rnd (vy (ray_len s)) (rmul rnd (vy (step_dir e)) (tile_size e))\<rparr>\<rparr>"
    by (auto simp: advance_def split: sum.splits)
  from ax(1) c(2) obtain x' where x': "int_add (cur_map_x s) (step_x e) = Inr x'"
    and ax_eq: "ax = s\<lparr>cur_map_x := x', distance := vx (ray_len s),
       ray_len := (ray_len s)\<lparr>vx := radd rnd (vx (ray_len s)) (rmul rnd (vx (step_dir e)) (tile_size e))\<rparr>\<rparr>"
    by (auto simp: advance_x_first_def split: sum.splits)
  note fy = check_wall_fields [OF ay(2)] and fx = check_wall_fields [OF ax(2)]
  from fy fx ay_eq ax_eq eq show "distance sx = distance sy"
    by simp
  from gy fy ay_eq eq have cy: "flt (vx (ray_len sy)) (vy (ray_len sy))"
    by simp
  from gx fx ax_eq eq have "flt (vy (ray_len sx)) (vx (ray_len sx))"
    by simp
  then have cx: "\<not> fle (vx (ray_len sx)) (vy (ray_len sx))"
    by (rule flt_not_fle)
  from check_wall_cases [OF ay(2)] check_wall_cases [OF ax(2)] h ay_eq ax_eq
  have "advance rnd e sy = advance_x_first rnd e sx"
    using cy cx x' y' eq
    by (auto simp: advance_def advance_x_first_def)
  then show "loop_body_x_first rnd e sx = loop_body rnd e sy"
    by (simp add: loop_body_def loop_body_x_first_def)
qed

lemma tie_alike_grown:
  assumes t: "tie s" and lc: "loop_cond e s"
    and y: "loop_body rnd e s = Inr sy" and x: "loop_body_x_first rnd e s = Inr sx"
    and h: "has_hit_wall sy = has_hit_wall sx"
    and gy: "flt (vy (ray_len s)) (vy (ray_len sy))"
    and gx: "flt (vx (ray_len s)) (vx (ray_len sx))"
  shows "tie_alike e (dda_steps rnd 2 e s) (dda_steps_x_first rnd 2 e s)"
proof -
  note b = tie_second_step [OF t y x h gy gx]
  from h b(2) have c: "loop_cond e sx = loop_cond e sy" "return_value e sx = return_value e sy"
    by (simp_all add: loop_cond_def return_value_def)
  from lc y x b(1) c show ?thesis
    by (auto simp: eval_nat_numeral tie_alike_def ended_alike_def split: sum.splits)
qed












section \<open>drawDottedLine on a segment of length zero\<close>

text \<open>
  C9. From a point with finite coordinates to itself, and for every dash length above 0
  (the program's own is 4), \<^verbatim>\<open>drawDottedLine\<close> draws nothing: the distance is 0, so is
  the number of steps, and the loop does not run. The normalisation of the spec does not divide by the length 0: the
  direction is \<open>(0, 0)\<close>, not NaN.
\<close>

theorem zero_length_segment_draws_nothing:
  assumes "0 < d"
  shows "drawDottedLine_len (Finite d) \<lparr>vx = Finite a, vy = Finite b\<rparr> \<lparr>vx = Finite a, vy = Finite b\<rparr>
           = Inr []
    \<and> drawDottedLine \<lparr>vx = Finite a, vy = Finite b\<rparr> \<lparr>vx = Finite a, vy = Finite b\<rparr> = Inr []
    \<and> Vector2Normalize (Vector2Subtract \<lparr>vx = Finite a, vy = Finite b\<rparr> \<lparr>vx = Finite a, vy = Finite b\<rparr>)
           = \<lparr>vx = Finite 0, vy = Finite 0\<rparr>"
proof -
  have "dotted_loop len dir 0 0 p = []" for len dir p
    by (subst dotted_loop.simps) simp
  with assms show ?thesis
    by (simp add: drawDottedLine_def drawDottedLine_len_def Vector2Normalize_def
        Vector2Subtract_def Vector2Distance_def fsub_def Let_def int_range_def)
qed

theorem zero_length_segment_draws_nothing_witness:
  "drawDottedLine \<lparr>vx = Finite 3, vy = Finite 4\<rparr> \<lparr>vx = Finite 3, vy = Finite 4\<rparr> = Inr []
   \<and> Vector2Normalize (Vector2Subtract \<lparr>vx = Finite 3, vy = Finite 4\<rparr> \<lparr>vx = Finite 3, vy = Finite 4\<rparr>)
           = \<lparr>vx = Finite 0, vy = Finite 0\<rparr>"
proof -
  have "(0::real) < 4" by simp
  from zero_length_segment_draws_nothing [OF this, of 3 4] show ?thesis
    by simp
qed

section \<open>The dashes drawDottedLine draws\<close>

lemma dotted_loop_finite:
  "dotted_loop (Finite L) \<lparr>vx = Finite ux, vy = Finite uy\<rparr> (int n) (int i)
     (dash_point \<lparr>vx = Finite a, vy = Finite b\<rparr> \<lparr>vx = Finite ux, vy = Finite uy\<rparr> L i)
   = map (\<lambda>j. (dash_point \<lparr>vx = Finite a, vy = Finite b\<rparr> \<lparr>vx = Finite ux, vy = Finite uy\<rparr> L (j + 1),
               dash_point \<lparr>vx = Finite a, vy = Finite b\<rparr> \<lparr>vx = Finite ux, vy = Finite uy\<rparr> L (j + 2)))
       (filter even [i..<n])"
proof (induction "n - i" arbitrary: i)
  case 0
  then show ?case
    by (subst dotted_loop.simps) simp
next
  case (Suc m)
  then have lt: "i < n" and m: "m = n - Suc i"
    by simp_all
  have step: "Vector2Add (dash_point \<lparr>vx = Finite a, vy = Finite b\<rparr> \<lparr>vx = Finite ux, vy = Finite uy\<rparr> L j)
                (Vector2Scale \<lparr>vx = Finite ux, vy = Finite uy\<rparr> (Finite L))
              = dash_point \<lparr>vx = Finite a, vy = Finite b\<rparr> \<lparr>vx = Finite ux, vy = Finite uy\<rparr> L (Suc j)" for j
    by (simp add: dash_point_def Vector2Add_def Vector2Scale_def algebra_simps)
  have i1: "int i + 1 = int (Suc i)"
    by simp
  from lt have u: "[i..<n] = i # [Suc i..<n]"
    by (rule upt_conv_Cons)
  have e: "(int i mod 2 = 0) = even i"
    by presburger
  show ?case
    by (subst dotted_loop.simps, simp only: step i1 Let_def Suc.hyps(1) [OF m] u)
      (use lt e in simp)
qed

lemma filter_even_upt: "filter even [0..<n] = map (\<lambda>k. 2 * k) [0..<(n + 1) div 2]"
proof (induction n)
  case 0
  then show ?case by simp
next
  case (Suc n)
  show ?case
  proof (cases "even n")
    case True
    then obtain k where k: "n = 2 * k" by (auto elim: evenE)
    then have "(Suc n + 1) div 2 = Suc ((n + 1) div 2)" "(n + 1) div 2 = k"
      by simp_all
    with Suc True k show ?thesis by simp
  next
    case False
    then obtain k where k: "n = 2 * k + 1" by (auto elim: oddE)
    then have "(Suc n + 1) div 2 = (n + 1) div 2"
      by simp
    with Suc False show ?thesis by simp
  qed
qed

lemma unit_direction:
  assumes "0 < D" "D = sqrt (p * p + q * q)"
  shows "(p * (1 / D)) * (p * (1 / D)) + (q * (1 / D)) * (q * (1 / D)) = 1"
proof -
  have "0 \<le> p * p + q * q"
    by simp
  then have dd: "D * D = p * p + q * q"
    by (simp add: assms(2))
  from assms(1) have nz: "D * D \<noteq> 0"
    by simp
  have "(p * (1 / D)) * (p * (1 / D)) + (q * (1 / D)) * (q * (1 / D))
      = (p * p + q * q) / (D * D)"
    by (simp add: add_divide_distrib)
  also have "\<dots> = (D * D) / (D * D)"
    by (simp only: dd)
  also have "\<dots> = 1"
    by (rule divide_self [OF nz])
  finally show ?thesis .
qed

lemma dash_point_distance:
  assumes "ux * ux + uy * uy = 1" "0 \<le> L"
  shows "Vector2Distance \<lparr>vx = Finite a, vy = Finite b\<rparr>
           (dash_point \<lparr>vx = Finite a, vy = Finite b\<rparr> \<lparr>vx = Finite ux, vy = Finite uy\<rparr> L j)
         = Finite (real j * L)"
proof -
  have "(ux * (real j * L)) * (ux * (real j * L)) + (uy * (real j * L)) * (uy * (real j * L))
      = (real j * L) * (real j * L) * (ux * ux + uy * uy)"
    by (simp add: algebra_simps)
  also have "\<dots> = (real j * L) * (real j * L)"
    by (simp add: assms)
  finally have "sqrt ((ux * (real j * L)) * (ux * (real j * L)) + (uy * (real j * L)) * (uy * (real j * L)))
      = real j * L"
    using assms(2) by (simp add: real_sqrt_mult)
  then show ?thesis
    by (simp add: Vector2Distance_def dash_point_def Vector2Add_def Vector2Scale_def fsub_def)
qed

lemma distance_finite:
  "Vector2Distance \<lparr>vx = Finite a, vy = Finite b\<rparr> \<lparr>vx = Finite c, vy = Finite d\<rparr>
     = Finite (sqrt ((a - c) * (a - c) + (b - d) * (b - d)))"
  by (simp add: Vector2Distance_def fsub_def)

lemma normalize_finite:
  "\<exists>ux uy. Vector2Normalize (Vector2Subtract \<lparr>vx = Finite c, vy = Finite d\<rparr> \<lparr>vx = Finite a, vy = Finite b\<rparr>)
       = \<lparr>vx = Finite ux, vy = Finite uy\<rparr>
     \<and> (0 < sqrt ((a - c) * (a - c) + (b - d) * (b - d)) \<longrightarrow> ux * ux + uy * uy = 1)"
proof -
  let ?D = "sqrt ((c - a) * (c - a) + (d - b) * (d - b))"
  have sym: "(a - c) * (a - c) + (b - d) * (b - d) = (c - a) * (c - a) + (d - b) * (d - b)"
    by (simp add: algebra_simps)
  have len: "fsqrt (fadd (fmul (Finite (c - a)) (Finite (c - a))) (fmul (Finite (d - b)) (Finite (d - b))))
      = Finite ?D"
    by simp
  have n: "Vector2Normalize (Vector2Subtract \<lparr>vx = Finite c, vy = Finite d\<rparr> \<lparr>vx = Finite a, vy = Finite b\<rparr>)
       = (if 0 < ?D then \<lparr>vx = Finite ((c - a) * (1 / ?D)), vy = Finite ((d - b) * (1 / ?D))\<rparr>
          else \<lparr>vx = Finite 0, vy = Finite 0\<rparr>)"
    by (simp add: Vector2Normalize_def Vector2Subtract_def fsub_def Let_def)
  show ?thesis
  proof (cases "0 < ?D")
    case True
    from unit_direction [OF True refl] n True show ?thesis
      unfolding sym by (simp only: if_True) blast
  next
    case False
    with n show ?thesis
      unfolding sym by (simp only: if_False) blast
  qed
qed

lemma dash_point_zero:
  "dash_point \<lparr>vx = Finite a, vy = Finite b\<rparr> \<lparr>vx = Finite ux, vy = Finite uy\<rparr> L 0
     = \<lparr>vx = Finite a, vy = Finite b\<rparr>"
  by (simp add: dash_point_def Vector2Add_def Vector2Scale_def)

lemma dotted_loop_spec:
  assumes "0 \<le> steps"
  shows "dotted_loop (Finite L) \<lparr>vx = Finite ux, vy = Finite uy\<rparr> steps 0 \<lparr>vx = Finite a, vy = Finite b\<rparr>
     = spec_dashes \<lparr>vx = Finite a, vy = Finite b\<rparr> \<lparr>vx = Finite ux, vy = Finite uy\<rparr> L steps"
proof -
  from assms have n: "steps = int (nat steps)" "nat ((steps + 1) div 2) = (nat steps + 1) div 2"
    by (simp_all add: nat_div_distrib nat_add_distrib)
  from dotted_loop_finite [of L ux uy "nat steps" 0 a b] assms
  show ?thesis
    unfolding spec_dashes_def n(2)
    by (simp add: dash_point_zero filter_even_upt comp_def)
qed

lemma floor_half:
  assumes "0 < L"
  shows "(of_int \<lfloor>D / (2 * L)\<rfloor> + 1) * L \<le> D / 2 + L"
proof -
  have "of_int \<lfloor>D / (2 * L)\<rfloor> * L \<le> (D / (2 * L)) * L"
    using assms by (intro mult_right_mono) simp_all
  also have "(D / (2 * L)) * L = D / 2"
    using assms by simp
  finally have "of_int \<lfloor>D / (2 * L)\<rfloor> * L + L \<le> D / 2 + L"
    by simp
  then show ?thesis
    by (simp only: distrib_right mult_1)
qed

text \<open>
  C10. The claim: for every start point and end point, at the distance \<open>D\<close>,
  \<^verbatim>\<open>drawDottedLine\<close> draws the dashes from \<open>2 * k + 1\<close> to \<open>2 * k + 2\<close> dash lengths from
  the start, for \<open>2 * k < floor (D / (2 * L))\<close>. The program converts \<open>D / (2 * L)\<close> to
  \<^verbatim>\<open>int\<close>: from \<open>(0, 0)\<close> to \<open>(2\<^sup>3\<^sup>5, 0)\<close> and with its dash length 4 the quotient is
  \<open>2\<^sup>3\<^sup>2\<close>, which is no \<^verbatim>\<open>int\<close>, and the conversion is undefined. Every value of
  this run is a value of binary32.
\<close>

theorem dotted_line_steps_not_int:
  "drawDottedLine \<lparr>vx = Finite 0, vy = Finite 0\<rparr> \<lparr>vx = Finite 34359738368, vy = Finite 0\<rparr>
     = Inl InvalidConversion
   \<and> Vector2Distance \<lparr>vx = Finite 0, vy = Finite 0\<rparr> \<lparr>vx = Finite 34359738368, vy = Finite 0\<rparr>
     = Finite 34359738368
   \<and> \<lfloor>34359738368 / (2 * 4) :: real\<rfloor> = 4294967296"
proof -
  have s: "sqrt (34359738368 * 34359738368) = 34359738368"
    using real_sqrt_abs2 [of 34359738368] by simp
  have f: "\<lfloor>34359738368 / (2 * 4) :: real\<rfloor> = 4294967296"
    by (rule floor_unique) simp_all
  have t: "truncate_real (34359738368 / 8) = 4294967296"
    using f by (simp add: truncate_real_def)
  from s f t show ?thesis
    by (simp add: drawDottedLine_def drawDottedLine_len_def distance_finite int_range_def Let_def)
qed

text \<open>
  The dashes for every dash length \<open>L\<close> above 0 in the place of the program's 4, in
  exact arithmetic.
\<close>

lemma dotted_line_len_dashes:
  assumes "0 < L"
  shows "\<exists>D. Vector2Distance \<lparr>vx = Finite a, vy = Finite b\<rparr> \<lparr>vx = Finite c, vy = Finite d\<rparr> = Finite D
     \<and> 0 \<le> D
     \<and> (\<lfloor>D / 8\<rfloor> \<le> 2147483647 \<longrightarrow>
          drawDottedLine \<lparr>vx = Finite a, vy = Finite b\<rparr> \<lparr>vx = Finite c, vy = Finite d\<rparr>
            = Inr (spec_dashes \<lparr>vx = Finite a, vy = Finite b\<rparr>
                  (Vector2Normalize (Vector2Subtract \<lparr>vx = Finite c, vy = Finite d\<rparr>
                                                   \<lparr>vx = Finite a, vy = Finite b\<rparr>))
                  4 \<lfloor>D / 8\<rfloor>))
     \<and> (\<lfloor>D / (2 * L)\<rfloor> \<le> 2147483647 \<longrightarrow>
          drawDottedLine_len (Finite L) \<lparr>vx = Finite a, vy = Finite b\<rparr> \<lparr>vx = Finite c, vy = Finite d\<rparr>
            = Inr (spec_dashes \<lparr>vx = Finite a, vy = Finite b\<rparr>
                  (Vector2Normalize (Vector2Subtract \<lparr>vx = Finite c, vy = Finite d\<rparr>
                                                   \<lparr>vx = Finite a, vy = Finite b\<rparr>))
                  L \<lfloor>D / (2 * L)\<rfloor>))
     \<and> (\<forall>k < nat ((\<lfloor>D / (2 * L)\<rfloor> + 1) div 2).
          Vector2Distance \<lparr>vx = Finite a, vy = Finite b\<rparr>
            (dash_point \<lparr>vx = Finite a, vy = Finite b\<rparr>
               (Vector2Normalize (Vector2Subtract \<lparr>vx = Finite c, vy = Finite d\<rparr>
                                                \<lparr>vx = Finite a, vy = Finite b\<rparr>)) L (2 * k + 1))
            = Finite (real (2 * k + 1) * L)
        \<and> Vector2Distance \<lparr>vx = Finite a, vy = Finite b\<rparr>
            (dash_point \<lparr>vx = Finite a, vy = Finite b\<rparr>
               (Vector2Normalize (Vector2Subtract \<lparr>vx = Finite c, vy = Finite d\<rparr>
                                                \<lparr>vx = Finite a, vy = Finite b\<rparr>)) L (2 * k + 2))
            = Finite (real (2 * k + 2) * L)
        \<and> real (2 * k + 2) * L \<le> (of_int \<lfloor>D / (2 * L)\<rfloor> + 1) * L)
     \<and> (of_int \<lfloor>D / (2 * L)\<rfloor> + 1) * L \<le> D / 2 + L"
proof -
  let ?S = "\<lparr>vx = Finite a, vy = Finite b\<rparr>" and ?E = "\<lparr>vx = Finite c, vy = Finite d\<rparr>"
  let ?D = "sqrt ((a - c) * (a - c) + (b - d) * (b - d))"
  let ?steps = "\<lfloor>?D / (2 * L)\<rfloor>"
  from normalize_finite [of c d a b] obtain ux uy where
    dir: "Vector2Normalize (Vector2Subtract ?E ?S) = \<lparr>vx = Finite ux, vy = Finite uy\<rparr>"
    and unit: "0 < ?D \<Longrightarrow> ux * ux + uy * uy = 1"
    by blast
  have D0: "0 \<le> ?D"
    by simp
  have 1: "Vector2Distance ?S ?E = Finite ?D"
    by (rule distance_finite)
  have len: "drawDottedLine_len (Finite l) ?S ?E =
      (if \<lfloor>?D / (2 * l)\<rfloor> \<le> 2147483647
       then Inr (spec_dashes ?S (Vector2Normalize (Vector2Subtract ?E ?S)) l \<lfloor>?D / (2 * l)\<rfloor>)
       else Inl InvalidConversion)" if l: "0 < l" for l
  proof -
    from D0 l have q0: "0 \<le> ?D / (2 * l)"
      by simp
    then have s0: "0 \<le> \<lfloor>?D / (2 * l)\<rfloor>"
      by simp
    from q0 have tr: "truncate_real (?D / (l * 2)) = \<lfloor>?D / (2 * l)\<rfloor>"
      by (simp add: truncate_real_def mult.commute)
    from s0 have ir: "int_range \<lfloor>?D / (2 * l)\<rfloor> = (\<lfloor>?D / (2 * l)\<rfloor> \<le> 2147483647)"
      by (simp add: int_range_def)
    from l dotted_loop_spec [OF s0, of l ux uy a b] show ?thesis
      by (simp add: drawDottedLine_len_def 1 dir tr ir Let_def)
  qed
  have 2: "\<lfloor>?D / (2 * L)\<rfloor> \<le> 2147483647 \<longrightarrow> drawDottedLine_len (Finite L) ?S ?E
      = Inr (spec_dashes ?S (Vector2Normalize (Vector2Subtract ?E ?S)) L ?steps)"
    by (simp add: len [OF assms])
  have l4: "(0::real) < 4"
    by simp
  have 24: "\<lfloor>?D / 8\<rfloor> \<le> 2147483647 \<longrightarrow> drawDottedLine ?S ?E
      = Inr (spec_dashes ?S (Vector2Normalize (Vector2Subtract ?E ?S)) 4 \<lfloor>?D / 8\<rfloor>)"
    using len [OF l4] by (simp add: drawDottedLine_def)
  have 3: "Vector2Distance ?S (dash_point ?S (Vector2Normalize (Vector2Subtract ?E ?S)) L (2 * k + 1))
            = Finite (real (2 * k + 1) * L)
        \<and> Vector2Distance ?S (dash_point ?S (Vector2Normalize (Vector2Subtract ?E ?S)) L (2 * k + 2))
            = Finite (real (2 * k + 2) * L)
        \<and> real (2 * k + 2) * L \<le> (of_int ?steps + 1) * L"
    if k: "k < nat ((?steps + 1) div 2)" for k
  proof -
    from k have "int k < (?steps + 1) div 2"
      by simp
    then have ks: "2 * int k + 2 \<le> ?steps + 1"
      by linarith
    then have "1 \<le> ?steps"
      by linarith
    then have "1 \<le> ?D / (2 * L)"
      by linarith
    with assms have "2 * L \<le> ?D"
      by (simp add: pos_le_divide_eq)
    with assms have "0 < ?D"
      by linarith
    from unit [OF this] have u: "ux * ux + uy * uy = 1" .
    from assms have L0: "0 \<le> L"
      by simp
    from ks have "real_of_int (2 * int k + 2) \<le> real_of_int (?steps + 1)"
      by (simp only: of_int_le_iff)
    then have "real (2 * k + 2) \<le> of_int ?steps + 1"
      by simp
    from this L0 have "real (2 * k + 2) * L \<le> (of_int ?steps + 1) * L"
      by (rule mult_right_mono)
    with dash_point_distance [OF u L0, of a b] show ?thesis
      by (simp only: dir)
  qed
  have 4: "(of_int ?steps + 1) * L \<le> ?D / 2 + L"
    by (rule floor_half [OF assms])
  from 1 D0 24 2 3 4 show ?thesis
    by blast
qed

text \<open>
  C10, amended. For finite end points at the distance \<open>D\<close>, when the number of steps
  \<open>floor (D / (2 * L))\<close> is an \<^verbatim>\<open>int\<close>, \<^verbatim>\<open>drawDottedLine\<close> draws exactly the dashes from
  \<open>2 * k + 1\<close> to \<open>2 * k + 2\<close> dash lengths from the start, for
  \<open>2 * k < floor (D / (2 * L))\<close>, where the dash length \<open>L\<close> is the program's 4 and
  \<open>2 * L\<close> is 8. The end points of each dash lie at these distances from the start, at
  most \<open>(floor (D / (2 * L)) + 1) * L\<close>, which is at most \<open>D / 2 + L\<close>.
\<close>

theorem dotted_line_dashes:
  "\<exists>D. Vector2Distance \<lparr>vx = Finite a, vy = Finite b\<rparr> \<lparr>vx = Finite c, vy = Finite d\<rparr> = Finite D
     \<and> 0 \<le> D
     \<and> (\<lfloor>D / 8\<rfloor> \<le> 2147483647 \<longrightarrow>
          drawDottedLine \<lparr>vx = Finite a, vy = Finite b\<rparr> \<lparr>vx = Finite c, vy = Finite d\<rparr>
            = Inr (spec_dashes \<lparr>vx = Finite a, vy = Finite b\<rparr>
                  (Vector2Normalize (Vector2Subtract \<lparr>vx = Finite c, vy = Finite d\<rparr>
                                                   \<lparr>vx = Finite a, vy = Finite b\<rparr>))
                  4 \<lfloor>D / 8\<rfloor>))
     \<and> (\<forall>k < nat ((\<lfloor>D / 8\<rfloor> + 1) div 2).
          Vector2Distance \<lparr>vx = Finite a, vy = Finite b\<rparr>
            (dash_point \<lparr>vx = Finite a, vy = Finite b\<rparr>
               (Vector2Normalize (Vector2Subtract \<lparr>vx = Finite c, vy = Finite d\<rparr>
                                                \<lparr>vx = Finite a, vy = Finite b\<rparr>)) 4 (2 * k + 1))
            = Finite (real (2 * k + 1) * 4)
        \<and> Vector2Distance \<lparr>vx = Finite a, vy = Finite b\<rparr>
            (dash_point \<lparr>vx = Finite a, vy = Finite b\<rparr>
               (Vector2Normalize (Vector2Subtract \<lparr>vx = Finite c, vy = Finite d\<rparr>
                                                \<lparr>vx = Finite a, vy = Finite b\<rparr>)) 4 (2 * k + 2))
            = Finite (real (2 * k + 2) * 4)
        \<and> real (2 * k + 2) * 4 \<le> (of_int \<lfloor>D / 8\<rfloor> + 1) * 4)
     \<and> (of_int \<lfloor>D / 8\<rfloor> + 1) * 4 \<le> D / 2 + 4"
proof -
  have "(0::real) < 4"
    by simp
  from dotted_line_len_dashes [OF this, of a b c d] obtain D where
    D: "Vector2Distance \<lparr>vx = Finite a, vy = Finite b\<rparr> \<lparr>vx = Finite c, vy = Finite d\<rparr> = Finite D"
      "0 \<le> D"
      "\<lfloor>D / 8\<rfloor> \<le> 2147483647 \<longrightarrow>
          drawDottedLine \<lparr>vx = Finite a, vy = Finite b\<rparr> \<lparr>vx = Finite c, vy = Finite d\<rparr>
            = Inr (spec_dashes \<lparr>vx = Finite a, vy = Finite b\<rparr>
                  (Vector2Normalize (Vector2Subtract \<lparr>vx = Finite c, vy = Finite d\<rparr>
                                                   \<lparr>vx = Finite a, vy = Finite b\<rparr>))
                  4 \<lfloor>D / 8\<rfloor>)"
      "\<forall>k < nat ((\<lfloor>D / (2 * 4)\<rfloor> + 1) div 2).
          Vector2Distance \<lparr>vx = Finite a, vy = Finite b\<rparr>
            (dash_point \<lparr>vx = Finite a, vy = Finite b\<rparr>
               (Vector2Normalize (Vector2Subtract \<lparr>vx = Finite c, vy = Finite d\<rparr>
                                                \<lparr>vx = Finite a, vy = Finite b\<rparr>)) 4 (2 * k + 1))
            = Finite (real (2 * k + 1) * 4)
        \<and> Vector2Distance \<lparr>vx = Finite a, vy = Finite b\<rparr>
            (dash_point \<lparr>vx = Finite a, vy = Finite b\<rparr>
               (Vector2Normalize (Vector2Subtract \<lparr>vx = Finite c, vy = Finite d\<rparr>
                                                \<lparr>vx = Finite a, vy = Finite b\<rparr>)) 4 (2 * k + 2))
            = Finite (real (2 * k + 2) * 4)
        \<and> real (2 * k + 2) * 4 \<le> (of_int \<lfloor>D / (2 * 4)\<rfloor> + 1) * 4"
      "(of_int \<lfloor>D / (2 * 4)\<rfloor> + 1) * 4 \<le> D / 2 + 4"
    by blast
  have e: "D / (2 * 4) = D / 8"
    by simp
  from D(4,5) have
      "\<forall>k < nat ((\<lfloor>D / 8\<rfloor> + 1) div 2).
          Vector2Distance \<lparr>vx = Finite a, vy = Finite b\<rparr>
            (dash_point \<lparr>vx = Finite a, vy = Finite b\<rparr>
               (Vector2Normalize (Vector2Subtract \<lparr>vx = Finite c, vy = Finite d\<rparr>
                                                \<lparr>vx = Finite a, vy = Finite b\<rparr>)) 4 (2 * k + 1))
            = Finite (real (2 * k + 1) * 4)
        \<and> Vector2Distance \<lparr>vx = Finite a, vy = Finite b\<rparr>
            (dash_point \<lparr>vx = Finite a, vy = Finite b\<rparr>
               (Vector2Normalize (Vector2Subtract \<lparr>vx = Finite c, vy = Finite d\<rparr>
                                                \<lparr>vx = Finite a, vy = Finite b\<rparr>)) 4 (2 * k + 2))
            = Finite (real (2 * k + 2) * 4)
        \<and> real (2 * k + 2) * 4 \<le> (of_int \<lfloor>D / 8\<rfloor> + 1) * 4"
      "(of_int \<lfloor>D / 8\<rfloor> + 1) * 4 \<le> D / 2 + 4"
    unfolding e by blast+
  with D(1,2,3) show ?thesis
    by blast
qed

theorem dotted_line_dashes_witness:
  "drawDottedLine \<lparr>vx = Finite 0, vy = Finite 0\<rparr> \<lparr>vx = Finite 20, vy = Finite 0\<rparr>
     = Inr [(\<lparr>vx = Finite 4, vy = Finite 0\<rparr>, \<lparr>vx = Finite 8, vy = Finite 0\<rparr>)]"
proof -
  have s400: "sqrt 400 = 20"
    using real_sqrt_abs2 [of 20] by simp
  have dist: "Vector2Distance \<lparr>vx = Finite 0, vy = Finite 0\<rparr> \<lparr>vx = Finite 20, vy = Finite 0\<rparr>
      = Finite 20"
    by (simp add: distance_finite s400)
  have dir: "Vector2Normalize (Vector2Subtract \<lparr>vx = Finite 20, vy = Finite 0\<rparr>
      \<lparr>vx = Finite 0, vy = Finite 0\<rparr>) = \<lparr>vx = Finite 1, vy = Finite 0\<rparr>"
    by (simp add: Vector2Normalize_def Vector2Subtract_def fsub_def Let_def s400)
  have fl: "\<lfloor>20 / 8 :: real\<rfloor> = 2"
    by (rule floor_unique) simp_all
  from dotted_line_dashes [of 0 0 20 0] obtain D where
    D: "Vector2Distance \<lparr>vx = Finite 0, vy = Finite 0\<rparr> \<lparr>vx = Finite 20, vy = Finite 0\<rparr> = Finite D"
    and r: "\<lfloor>D / 8\<rfloor> \<le> 2147483647 \<longrightarrow>
       drawDottedLine \<lparr>vx = Finite 0, vy = Finite 0\<rparr> \<lparr>vx = Finite 20, vy = Finite 0\<rparr>
         = Inr (spec_dashes \<lparr>vx = Finite 0, vy = Finite 0\<rparr>
                  (Vector2Normalize (Vector2Subtract \<lparr>vx = Finite 20, vy = Finite 0\<rparr>
                                                   \<lparr>vx = Finite 0, vy = Finite 0\<rparr>))
                  4 \<lfloor>D / 8\<rfloor>)"
    by blast
  from D dist have "D = 20"
    by simp
  with r show ?thesis
    by (simp add: dir fl spec_dashes_def dash_point_def Vector2Add_def Vector2Scale_def)
qed

end
